theory Spec2Isabelle
  imports Main "HOL-Library.Multiset" "HOL-Library.Char_ord" "HOL-Library.List_Lexorder"
begin

section \<open>JavaScript strings and arrays\<close>

text \<open>
  A JavaScript string is modelled as a \<^typ>\<open>string\<close>: each \<^typ>\<open>char\<close> stands for one
  code unit in the range U+0000..U+00FF. The built-ins below are written for that range.
\<close>

definition toLowerCase_char :: "char \<Rightarrow> char" where
  "toLowerCase_char c =
     (let n = (of_char c :: nat)
      in if (65 \<le> n \<and> n \<le> 90) \<or> (192 \<le> n \<and> n \<le> 222 \<and> n \<noteq> 215)
         then char_of (n + 32) else c)"

definition toLowerCase :: "string \<Rightarrow> string" where
  "toLowerCase s = map toLowerCase_char s"

definition isWhiteSpace :: "char \<Rightarrow> bool" where
  "isWhiteSpace c = ((of_char c :: nat) \<in> {9, 10, 11, 12, 13, 32, 160})"

definition trimStart :: "string \<Rightarrow> string" where
  "trimStart s = dropWhile isWhiteSpace s"

definition trimEnd :: "string \<Rightarrow> string" where
  "trimEnd s = rev (dropWhile isWhiteSpace (rev s))"

definition trim :: "string \<Rightarrow> string" where
  "trim s = trimEnd (trimStart s)"

definition startsWith :: "string \<Rightarrow> string \<Rightarrow> bool" where
  "startsWith s p = (take (length p) s = p)"

text \<open>\<open>String.prototype.includes\<close>: the needle occurs as a contiguous substring.\<close>

fun str_includes :: "string \<Rightarrow> string \<Rightarrow> bool" where
  "str_includes [] needle = (needle = [])"
| "str_includes (c # cs) needle = (startsWith (c # cs) needle \<or> str_includes cs needle)"

text \<open>Decimal rendering of a non-negative integer, as a template literal does.\<close>

definition digit_char :: "nat \<Rightarrow> char" where
  "digit_char d = char_of (48 + d)"

fun show_nat :: "nat \<Rightarrow> string" where
  "show_nat n = (if n < 10 then [digit_char n] else show_nat (n div 10) @ [digit_char (n mod 10)])"

declare show_nat.simps [simp del]

definition show_int :: "int \<Rightarrow> string" where
  "show_int i = (if i < 0 then CHR ''-'' # show_nat (nat (- i)) else show_nat (nat i))"

text \<open>
  \<open>encodeURIComponent\<close>: the unreserved characters stay, every other code unit is
  written as the percent-escaped bytes of its UTF-8 encoding.
\<close>

definition uri_unreserved :: "char \<Rightarrow> bool" where
  "uri_unreserved c =
     (let n = (of_char c :: nat)
      in (65 \<le> n \<and> n \<le> 90) \<or> (97 \<le> n \<and> n \<le> 122) \<or> (48 \<le> n \<and> n \<le> 57)
         \<or> c \<in> set ''-_.!~*'()'')"

definition hex_digit :: "nat \<Rightarrow> char" where
  "hex_digit d = (if d < 10 then char_of (48 + d) else char_of (55 + d))"

definition percent_byte :: "nat \<Rightarrow> string" where
  "percent_byte b = [CHR ''%'', hex_digit (b div 16), hex_digit (b mod 16)]"

definition encode_char :: "char \<Rightarrow> string" where
  "encode_char c =
     (let n = (of_char c :: nat)
      in if uri_unreserved c then [c]
         else if n < 128 then percent_byte n
         else percent_byte (192 + n div 64) @ percent_byte (128 + n mod 64))"

definition encodeURIComponent :: "string \<Rightarrow> string" where
  "encodeURIComponent s = concat (map encode_char s)"

text \<open>
  \<open>Array.prototype.sort(comparefn)\<close>. The language requires the sort to be stable, so
  for a consistent comparator the result is the one stable sorted arrangement; it is
  computed here by insertion. The comparator's result is a number whose sign decides
  (a \<open>NaN\<close> result counts as \<open>0\<close>).
\<close>

fun insert_by :: "('a \<Rightarrow> 'a \<Rightarrow> int) \<Rightarrow> 'a \<Rightarrow> 'a list \<Rightarrow> 'a list" where
  "insert_by cmp x [] = [x]"
| "insert_by cmp x (y # ys) = (if cmp x y \<le> 0 then x # y # ys else y # insert_by cmp x ys)"

definition js_sort :: "('a \<Rightarrow> 'a \<Rightarrow> int) \<Rightarrow> 'a list \<Rightarrow> 'a list" where
  "js_sort cmp xs = foldr (insert_by cmp) xs []"

text \<open>\<open>Array.from(new Set(xs))\<close>: the distinct elements in order of first occurrence.\<close>

definition set_add :: "'a \<Rightarrow> 'a list \<Rightarrow> 'a list" where
  "set_add x acc = (if List.member acc x then acc else acc @ [x])"

definition array_from_set :: "'a list \<Rightarrow> 'a list" where
  "array_from_set xs = fold set_add xs []"

section \<open>The gallery client\<close>

text \<open>
  A shop as \<open>fetchShopsFromNotion\<close> returns it, and as the server sends it to the
  client with its \<open>screenshot\<close> field added.
\<close>

record shop_item =
  shop_id :: string
  title :: string
  url :: string
  category :: string
  tags :: "string list"
  shop_notes :: string
  editedAt :: string

record shop = shop_item +
  screenshot :: string

definition PAGE_SIZE :: nat where
  "PAGE_SIZE = 12"

text \<open>
  The module-level variables of the client script, and the cards that \<open>renderGallery\<close>
  last put into the gallery element.
\<close>

record gallery_state =
  allShops :: "shop list"
  filteredShops :: "shop list"
  activeCategory :: string
  activeTag :: string
  activeSummary :: string
  activeSort :: string
  currentPage :: nat
  isAutoLoading :: bool
  galleryCards :: "shop list"

definition normalizeText :: "string \<Rightarrow> string" where
  "normalizeText v = trim (toLowerCase v)"

text \<open>
  \<open>new Date(a.editedAt) - new Date(b.editedAt)\<close>: \<open>dateValue\<close> gives the time value of
  a timestamp string, \<open>None\<close> for an invalid date, whose difference is \<open>NaN\<close>.
\<close>

definition date_diff :: "(string \<Rightarrow> int option) \<Rightarrow> string \<Rightarrow> string \<Rightarrow> int" where
  "date_diff dateValue a b =
     (case dateValue a of None \<Rightarrow> 0
      | Some x \<Rightarrow> (case dateValue b of None \<Rightarrow> 0 | Some y \<Rightarrow> x - y))"

text \<open>
  \<open>localeCompare\<close> (the host's collation) and \<open>dateValue\<close> (the host's date parser) are
  parameters.
\<close>

definition sortShops ::
  "(string \<Rightarrow> string \<Rightarrow> int) \<Rightarrow> (string \<Rightarrow> int option) \<Rightarrow> string \<Rightarrow>
   ('a shop_item_scheme) list \<Rightarrow> ('a shop_item_scheme) list" where
  "sortShops localeCompare dateValue sortKey shops =
     (if sortKey = ''az'' then js_sort (\<lambda>a b. localeCompare (title a) (title b)) shops
      else if sortKey = ''za'' then js_sort (\<lambda>a b. localeCompare (title b) (title a)) shops
      else if sortKey = ''oldest''
        then js_sort (\<lambda>a b. date_diff dateValue (editedAt a) (editedAt b)) shops
      else js_sort (\<lambda>a b. date_diff dateValue (editedAt b) (editedAt a)) shops)"

definition computeFilteredShops ::
  "(string \<Rightarrow> string \<Rightarrow> int) \<Rightarrow> (string \<Rightarrow> int option) \<Rightarrow> gallery_state \<Rightarrow> gallery_state" where
  "computeFilteredShops localeCompare dateValue s =
     (let summaryQuery = normalizeText (activeSummary s);
          items = allShops s;
          items = (if activeCategory s \<noteq> ''all''
                   then filter (\<lambda>shop. normalizeText (category shop) = normalizeText (activeCategory s)) items
                   else items);
          items = (if activeTag s \<noteq> ''all''
                   then filter (\<lambda>shop. List.member (map normalizeText (tags shop)) (normalizeText (activeTag s))) items
                   else items);
          items = (if summaryQuery \<noteq> []
                   then filter (\<lambda>shop. str_includes (normalizeText (shop_notes shop)) summaryQuery) items
                   else items)
      in s\<lparr>filteredShops := sortShops localeCompare dateValue (activeSort s) items\<rparr>)"

definition visibleCount :: "gallery_state \<Rightarrow> nat" where
  "visibleCount s = min (length (filteredShops s)) (currentPage s * PAGE_SIZE)"

definition visibleShops :: "gallery_state \<Rightarrow> shop list" where
  "visibleShops s = take (visibleCount s) (filteredShops s)"

definition hasMoreShops :: "gallery_state \<Rightarrow> bool" where
  "hasMoreShops s = (visibleCount s < length (filteredShops s))"

text \<open>
  \<open>renderGallery\<close> replaces the cards of the gallery element by the visible shops. The
  callback it hands to \<open>requestAnimationFrame\<close> runs later, as an event of its own.
\<close>

definition renderGallery :: "gallery_state \<Rightarrow> gallery_state" where
  "renderGallery s = s\<lparr>galleryCards := visibleShops s\<rparr>"

definition refreshAndRender ::
  "(string \<Rightarrow> string \<Rightarrow> int) \<Rightarrow> (string \<Rightarrow> int option) \<Rightarrow> bool \<Rightarrow> gallery_state \<Rightarrow> gallery_state" where
  "refreshAndRender localeCompare dateValue resetPage s =
     renderGallery (computeFilteredShops localeCompare dateValue
       (if resetPage then s\<lparr>currentPage := 1\<rparr> else s))"

definition loadMore :: "gallery_state \<Rightarrow> gallery_state" where
  "loadMore s =
     (if \<not> hasMoreShops s then s
      else renderGallery (s\<lparr>currentPage := currentPage s + 1\<rparr>))"

text \<open>The listeners of the two selects, the text input and the sort select.\<close>

definition categoryChange ::
  "(string \<Rightarrow> string \<Rightarrow> int) \<Rightarrow> (string \<Rightarrow> int option) \<Rightarrow> string \<Rightarrow> gallery_state \<Rightarrow> gallery_state" where
  "categoryChange localeCompare dateValue v s =
     refreshAndRender localeCompare dateValue True (s\<lparr>activeCategory := v\<rparr>)"

definition tagChange ::
  "(string \<Rightarrow> string \<Rightarrow> int) \<Rightarrow> (string \<Rightarrow> int option) \<Rightarrow> string \<Rightarrow> gallery_state \<Rightarrow> gallery_state" where
  "tagChange localeCompare dateValue v s =
     refreshAndRender localeCompare dateValue True (s\<lparr>activeTag := v\<rparr>)"

definition summaryInput ::
  "(string \<Rightarrow> string \<Rightarrow> int) \<Rightarrow> (string \<Rightarrow> int option) \<Rightarrow> string \<Rightarrow> gallery_state \<Rightarrow> gallery_state" where
  "summaryInput localeCompare dateValue v s =
     refreshAndRender localeCompare dateValue True (s\<lparr>activeSummary := v\<rparr>)"

definition sortChange ::
  "(string \<Rightarrow> string \<Rightarrow> int) \<Rightarrow> (string \<Rightarrow> int option) \<Rightarrow> string \<Rightarrow> gallery_state \<Rightarrow> gallery_state" where
  "sortChange localeCompare dateValue v s =
     refreshAndRender localeCompare dateValue True (s\<lparr>activeSort := v\<rparr>)"

definition resetFilters ::
  "(string \<Rightarrow> string \<Rightarrow> int) \<Rightarrow> (string \<Rightarrow> int option) \<Rightarrow> gallery_state \<Rightarrow> gallery_state" where
  "resetFilters localeCompare dateValue s =
     refreshAndRender localeCompare dateValue True
       (s\<lparr>activeCategory := ''all'', activeTag := ''all'', activeSummary := []\<rparr>)"

section \<open>The gallery client: preloading an image\<close>

text \<open>
  The state that one call of \<open>preloadImageWithFallback\<close> creates: the argument
  \<open>fallbackUrl\<close> that its callbacks read, the flag \<open>settled\<close>, the string last assigned
  to \<open>img.src\<close>, the delay of the timeout and whether it is still pending, and the
  promise; \<open>assignments\<close> counts the assignments to \<open>img.src\<close>.
\<close>

datatype promise_state = Pending | Fulfilled | Rejected

record preload =
  fallbackUrl :: string
  settled :: bool
  src :: string
  timeoutMs :: int
  timer :: bool
  promiseState :: promise_state
  assignments :: nat

text \<open>\<open>resolve()\<close> settles a pending promise and does nothing otherwise.\<close>

definition resolve :: "preload \<Rightarrow> preload" where
  "resolve s = (if promiseState s = Pending then s\<lparr>promiseState := Fulfilled\<rparr> else s)"

definition finish :: "preload \<Rightarrow> preload" where
  "finish s = (if settled s then s else resolve (s\<lparr>settled := True\<rparr>))"

definition clearTimeout :: "preload \<Rightarrow> preload" where
  "clearTimeout s = s\<lparr>timer := False\<rparr>"

definition onload :: "preload \<Rightarrow> preload" where
  "onload s = finish (clearTimeout s)"

text \<open>
  Reading \<open>img.src\<close> does not give the string that was assigned but the URL the browser
  resolved it to. That resolution, \<open>resolveUrl\<close>, is a parameter.
\<close>

definition onerror :: "(string \<Rightarrow> string) \<Rightarrow> preload \<Rightarrow> preload" where
  "onerror resolveUrl s =
     (if fallbackUrl s \<noteq> [] \<and> resolveUrl (src s) \<noteq> fallbackUrl s
      then s\<lparr>src := fallbackUrl s, assignments := assignments s + 1\<rparr>
      else finish (clearTimeout s))"

definition onTimeout :: "preload \<Rightarrow> preload" where
  "onTimeout s = (if timer s then finish (s\<lparr>timer := False\<rparr>) else s)"

text \<open>
  The executor of the promise, run to its end: the timeout is set and the primary URL
  is assigned.
\<close>

definition preloadImageWithFallback :: "string \<Rightarrow> string \<Rightarrow> int \<Rightarrow> preload" where
  "preloadImageWithFallback primaryUrl fallback delay =
     \<lparr>fallbackUrl = fallback, settled = False, src = primaryUrl, timeoutMs = delay,
      timer = True, promiseState = Pending, assignments = 1\<rparr>"

text \<open>
  What the browser then delivers, one callback at a time: the image's \<open>load\<close> and \<open>error\<close>
  events and the timeout. A timeout set for \<open>delay\<close> fires when that delay (at least 0)
  has passed, unless it was cleared. \<open>events_until\<close> lists what has been delivered \<open>T\<close>
  milliseconds after the call, given the image events with their times.
\<close>

datatype image_event = Load | Error

datatype browser_event = ImageEvent image_event | TimerFires

fun deliver :: "(string \<Rightarrow> string) \<Rightarrow> browser_event \<Rightarrow> preload \<Rightarrow> preload" where
  "deliver resolveUrl (ImageEvent Load) s = onload s"
| "deliver resolveUrl (ImageEvent Error) s = onerror resolveUrl s"
| "deliver resolveUrl TimerFires s = onTimeout s"

definition events_until :: "int \<Rightarrow> (int \<times> image_event) list \<Rightarrow> int \<Rightarrow> browser_event list" where
  "events_until delay imageEvents T =
     map (\<lambda>(t, e). ImageEvent e) (filter (\<lambda>(t, e). t < max 0 delay \<and> t \<le> T) imageEvents)
     @ (if max 0 delay \<le> T then [TimerFires] else [])
     @ map (\<lambda>(t, e). ImageEvent e) (filter (\<lambda>(t, e). max 0 delay \<le> t \<and> t \<le> T) imageEvents)"

definition preload_at ::
  "(string \<Rightarrow> string) \<Rightarrow> string \<Rightarrow> string \<Rightarrow> int \<Rightarrow> (int \<times> image_event) list \<Rightarrow> int \<Rightarrow> preload" where
  "preload_at resolveUrl primaryUrl fallback delay imageEvents T =
     (let s = preloadImageWithFallback primaryUrl fallback delay
      in fold (deliver resolveUrl) (events_until (timeoutMs s) imageEvents T) s)"

section \<open>JavaScript values read from JSON\<close>

text \<open>
  The values \<open>JSON.parse\<close> can return, with \<open>undefined\<close> for a property that is not
  there. Numbers are restricted to integers, which is what \<open>Date.now()\<close> yields.
\<close>

datatype jsval =
    JUndefined
  | JNull
  | JBool bool
  | JNum int
  | JStr string
  | JArr "jsval list"
  | JObj "(string \<times> jsval) list"

text \<open>A number as arithmetic sees it: an integer, \<open>NaN\<close> or an infinity.\<close>

datatype jsnum = Num int | NaN | Infinity | NegInfinity

text \<open>
  \<open>v?.k\<close> for a key \<open>k\<close> that no prototype defines: the own property of an object,
  \<open>undefined\<close> on anything else.
\<close>

fun get_prop :: "jsval \<Rightarrow> string \<Rightarrow> jsval" where
  "get_prop (JObj kvs) k = (case map_of kvs k of None \<Rightarrow> JUndefined | Some v \<Rightarrow> v)"
| "get_prop v k = JUndefined"

fun truthy :: "jsval \<Rightarrow> bool" where
  "truthy JUndefined = False"
| "truthy JNull = False"
| "truthy (JBool b) = b"
| "truthy (JNum n) = (n \<noteq> 0)"
| "truthy (JStr s) = (s \<noteq> [])"
| "truthy (JArr xs) = True"
| "truthy (JObj kvs) = True"

text \<open>
  \<open>String(v)\<close>. An array is joined with commas, \<open>null\<close> and \<open>undefined\<close> elements giving
  the empty string. A parsed object prints as \<open>[object Object]\<close> unless it has an own
  \<open>toString\<close> property, which is never callable, and then the conversion throws.
  \<open>Inl\<close> is a thrown error with its message.
\<close>

definition TypeError_primitive :: string where
  "TypeError_primitive = ''Cannot convert object to primitive value''"

fun js_String :: "jsval \<Rightarrow> string + string"
  and js_join :: "jsval list \<Rightarrow> string + string" where
  "js_String JUndefined = Inr ''undefined''"
| "js_String JNull = Inr ''null''"
| "js_String (JBool b) = Inr (if b then ''true'' else ''false'')"
| "js_String (JNum n) = Inr (show_int n)"
| "js_String (JStr s) = Inr s"
| "js_String (JArr xs) = js_join xs"
| "js_String (JObj kvs) =
     (if List.member (map fst kvs) ''toString'' then Inl TypeError_primitive
      else Inr ''[object Object]'')"
| "js_join [] = Inr []"
| "js_join (x # xs) =
     (case (if x = JUndefined \<or> x = JNull then Inr [] else js_String x) of
        Inl e \<Rightarrow> Inl e
      | Inr s \<Rightarrow>
          (if xs = [] then Inr s
           else (case js_join xs of Inl e \<Rightarrow> Inl e | Inr r \<Rightarrow> Inr (s @ '','' @ r))))"

text \<open>
  \<open>Number(v)\<close>. \<open>StringToNumber\<close>, the language's reading of a string as a numeric
  literal, is a parameter. Arrays and objects are converted through their string.
\<close>

fun js_Number :: "(string \<Rightarrow> jsnum) \<Rightarrow> jsval \<Rightarrow> string + jsnum" where
  "js_Number StringToNumber JUndefined = Inr NaN"
| "js_Number StringToNumber JNull = Inr (Num 0)"
| "js_Number StringToNumber (JBool b) = Inr (Num (if b then 1 else 0))"
| "js_Number StringToNumber (JNum n) = Inr (Num n)"
| "js_Number StringToNumber (JStr s) = Inr (StringToNumber s)"
| "js_Number StringToNumber v =
     (case js_String v of Inl e \<Rightarrow> Inl e | Inr s \<Rightarrow> Inr (StringToNumber s))"

fun js_sub :: "jsnum \<Rightarrow> jsnum \<Rightarrow> jsnum" where
  "js_sub (Num a) (Num b) = Num (a - b)"
| "js_sub NaN y = NaN"
| "js_sub x NaN = NaN"
| "js_sub Infinity Infinity = NaN"
| "js_sub NegInfinity NegInfinity = NaN"
| "js_sub Infinity y = Infinity"
| "js_sub NegInfinity y = NegInfinity"
| "js_sub (Num a) Infinity = NegInfinity"
| "js_sub (Num a) NegInfinity = Infinity"

fun js_gt :: "jsnum \<Rightarrow> jsnum \<Rightarrow> bool" where
  "js_gt (Num a) (Num b) = (a > b)"
| "js_gt NaN y = False"
| "js_gt x NaN = False"
| "js_gt Infinity y = (y \<noteq> Infinity)"
| "js_gt NegInfinity y = False"
| "js_gt (Num a) Infinity = False"
| "js_gt (Num a) NegInfinity = True"

fun isFinite :: "jsnum \<Rightarrow> bool" where
  "isFinite (Num a) = True"
| "isFinite x = False"

section \<open>The server: configuration\<close>

text \<open>The values read from the environment at start-up, as integers.\<close>

record config =
  screenshotCacheDir :: string
  screenshotTtlHours :: int
  shopsCacheTtlSeconds :: int
  edgeCacheSeconds :: nat
  edgeStaleSeconds :: nat
  databaseId :: string

definition screenshotTtlMs :: "config \<Rightarrow> int" where
  "screenshotTtlMs cfg = max 1 (screenshotTtlHours cfg) * 60 * 60 * 1000"

definition screenshotVersion :: string where
  "screenshotVersion = ''v3''"

definition shopsCacheTtlMs :: "config \<Rightarrow> int" where
  "shopsCacheTtlMs cfg = max 5 (shopsCacheTtlSeconds cfg) * 1000"

text \<open>The one entry of \<open>screenshotProviders\<close>, and the list.\<close>

definition thumProvider :: "string \<Rightarrow> string" where
  "thumProvider targetUrl =
     ''https://image.thum.io/get/width/1400/crop/900/noanimate/'' @ encodeURIComponent targetUrl"

definition screenshotProviders :: "(string \<Rightarrow> string) list" where
  "screenshotProviders = [thumProvider]"

section \<open>The server: screenshot cache\<close>

text \<open>
  The cache directory is a map from paths to file contents; a path that is not in the
  map cannot be read. Cache keys are hexadecimal digests, so joining a key to the
  directory is concatenation.
\<close>

type_synonym filesystem = "string \<rightharpoonup> string"

record cache_paths =
  binPath :: string
  metaPath :: string

definition pathsForKey :: "config \<Rightarrow> string \<Rightarrow> cache_paths" where
  "pathsForKey cfg cacheKey =
     \<lparr>binPath = screenshotCacheDir cfg @ ''/'' @ cacheKey @ ''.bin'',
      metaPath = screenshotCacheDir cfg @ ''/'' @ cacheKey @ ''.json''\<rparr>"

definition readFile :: "filesystem \<Rightarrow> string \<Rightarrow> string + string" where
  "readFile fs path = (case fs path of None \<Rightarrow> Inl ''ENOENT'' | Some content \<Rightarrow> Inr content)"

record cache_entry =
  contentType :: jsval
  body :: string

text \<open>
  The body of the \<open>try\<close> block of \<open>readCacheEntry\<close>: \<open>Inl\<close> is an exception on its way
  to the \<open>catch\<close>, \<open>Inr None\<close> is \<open>return null\<close>. \<open>JSON_parse\<close> is a parameter.
\<close>

definition readCacheEntry_try ::
  "(string \<Rightarrow> string + jsval) \<Rightarrow> (string \<Rightarrow> jsnum) \<Rightarrow> config \<Rightarrow> int \<Rightarrow> filesystem \<Rightarrow> string
   \<Rightarrow> string + cache_entry option" where
  "readCacheEntry_try JSON_parse StringToNumber cfg now fs cacheKey =
     (let paths = pathsForKey cfg cacheKey in
      case readFile fs (metaPath paths) of Inl e \<Rightarrow> Inl e | Inr metaRaw \<Rightarrow>
      case readFile fs (binPath paths) of Inl e \<Rightarrow> Inl e | Inr bin \<Rightarrow>
      case JSON_parse metaRaw of Inl e \<Rightarrow> Inl e | Inr meta \<Rightarrow>
        if \<not> truthy (get_prop meta ''fetchedAt'') \<or> \<not> truthy (get_prop meta ''contentType'')
        then Inr None
        else
          case js_String (get_prop meta ''contentType'') of Inl e \<Rightarrow> Inl e | Inr ct \<Rightarrow>
          if \<not> startsWith (toLowerCase ct) ''image/'' then Inr None
          else
            case js_Number StringToNumber (get_prop meta ''fetchedAt'') of Inl e \<Rightarrow> Inl e
            | Inr fetched \<Rightarrow>
              let ageMs = js_sub (Num now) fetched in
              if \<not> isFinite ageMs \<or> js_gt ageMs (Num (screenshotTtlMs cfg)) then Inr None
              else Inr (Some \<lparr>contentType = get_prop meta ''contentType'', body = bin\<rparr>))"

definition readCacheEntry ::
  "(string \<Rightarrow> string + jsval) \<Rightarrow> (string \<Rightarrow> jsnum) \<Rightarrow> config \<Rightarrow> int \<Rightarrow> filesystem \<Rightarrow> string
   \<Rightarrow> string + cache_entry option" where
  "readCacheEntry JSON_parse StringToNumber cfg now fs cacheKey =
     (case readCacheEntry_try JSON_parse StringToNumber cfg now fs cacheKey of
        Inl e \<Rightarrow> Inr None
      | Inr r \<Rightarrow> Inr r)"

section \<open>The server: screenshot providers\<close>

text \<open>
  What \<open>fetch\<close> gives for an upstream URL: a rejection, with the message the \<open>catch\<close>
  clause reads from it, or a response. Reading the body can itself reject.
\<close>

record response =
  status :: nat
  contentTypeHeader :: "string option"
  arrayBuffer :: "string + string"

datatype fetch_result = Rejects string | Resolves response

definition response_ok :: "response \<Rightarrow> bool" where
  "response_ok r = (200 \<le> status r \<and> status r \<le> 299)"

text \<open>\<open>response.headers.get("content-type") || "image/jpeg"\<close>\<close>

definition headerOrDefault :: "response \<Rightarrow> string" where
  "headerOrDefault r =
     (case contentTypeHeader r of
        None \<Rightarrow> ''image/jpeg''
      | Some h \<Rightarrow> if h = [] then ''image/jpeg'' else h)"

datatype attempt = Skip | Reject string | Accept "string \<times> string"

text \<open>One turn of the loop of \<open>fetchScreenshotBuffer\<close>.\<close>

definition try_provider :: "(string \<Rightarrow> fetch_result) \<Rightarrow> string \<Rightarrow> (string \<Rightarrow> string) \<Rightarrow> attempt" where
  "try_provider fetch targetUrl buildProviderUrl =
     (let upstream = buildProviderUrl targetUrl in
      if upstream = [] then Skip
      else
        case fetch upstream of
          Rejects message \<Rightarrow> Reject message
        | Resolves r \<Rightarrow>
            if \<not> response_ok r then Reject (''Provider failed ('' @ show_nat (status r) @ '').'')
            else
              let ct = headerOrDefault r in
              if \<not> startsWith (toLowerCase ct) ''image/''
              then Reject (''Provider returned non-image content ('' @ ct @ '').'')
              else
                case arrayBuffer r of
                  Inl message \<Rightarrow> Reject message
                | Inr b \<Rightarrow>
                    if b = [] then Reject ''Provider returned an empty image.''
                    else Accept (ct, b))"

fun provider_loop ::
  "(string \<Rightarrow> fetch_result) \<Rightarrow> string \<Rightarrow> string \<Rightarrow> (string \<Rightarrow> string) list \<Rightarrow> string + string \<times> string" where
  "provider_loop fetch targetUrl lastError [] = Inl lastError"
| "provider_loop fetch targetUrl lastError (p # ps) =
     (case try_provider fetch targetUrl p of
        Skip \<Rightarrow> provider_loop fetch targetUrl lastError ps
      | Reject message \<Rightarrow> provider_loop fetch targetUrl message ps
      | Accept result \<Rightarrow> Inr result)"

definition fetchScreenshotBuffer ::
  "(string \<Rightarrow> fetch_result) \<Rightarrow> (string \<Rightarrow> string) list \<Rightarrow> string \<Rightarrow> string + string \<times> string" where
  "fetchScreenshotBuffer fetch providers targetUrl =
     provider_loop fetch targetUrl ''Unknown screenshot error.'' providers"

section \<open>The server: the shops payload\<close>

text \<open>What \<open>fetchShopsFromNotion\<close> resolves to.\<close>

record notion_data =
  items :: "shop_item list"
  totalRows :: nat
  shopsWithUrl :: nat

record shops_payload =
  shops :: "shop list"
  categories :: "string list"
  tags :: "string list"
  count :: nat
  totalRows :: nat
  shopsWithUrl :: nat
  databaseId :: string

definition with_screenshot :: "shop_item \<Rightarrow> shop" where
  "with_screenshot shop =
     \<lparr>shop_id = shop_id shop, title = title shop, url = url shop, category = category shop,
      tags = shop_item.tags shop, shop_notes = shop_notes shop, editedAt = editedAt shop,
      screenshot = ''/api/screenshot?u='' @ encodeURIComponent (url shop) @ ''&sv='' @ screenshotVersion\<rparr>"

text \<open>
  \<open>buildShopsPayload\<close>, given the outcome of \<open>fetchShopsFromNotion\<close> (\<open>Inl\<close> when it
  throws).
\<close>

definition buildShopsPayload ::
  "(string \<Rightarrow> string \<Rightarrow> int) \<Rightarrow> config \<Rightarrow> string + notion_data \<Rightarrow> string + shops_payload" where
  "buildShopsPayload localeCompare cfg fetched =
     (case fetched of
        Inl e \<Rightarrow> Inl e
      | Inr notionData \<Rightarrow>
          let payload = map with_screenshot (notion_data.items notionData);
              tagList = js_sort localeCompare
                (array_from_set (filter (\<lambda>tag. tag \<noteq> [])
                  (map trim (concat (map shop_item.tags payload)))));
              categoryList = js_sort localeCompare
                (array_from_set (filter (\<lambda>c. c \<noteq> [])
                  (map (\<lambda>shop. trim (category shop)) payload)))
          in Inr \<lparr>shops = payload, categories = categoryList, tags = tagList,
                  count = length payload,
                  totalRows = notion_data.totalRows notionData,
                  shopsWithUrl = notion_data.shopsWithUrl notionData,
                  databaseId = config.databaseId cfg\<rparr>)"

section \<open>The server: the dataset cache\<close>

text \<open>
  \<open>shopsCache\<close>. The promise in \<open>inflight\<close> is named by a number. The server state also
  counts the calls of \<open>buildShopsPayload\<close> made so far, which numbers the promises, and
  keeps the outcome of every promise that has settled.
\<close>

record shopsCache =
  payload :: "shops_payload option"
  fetchedAt :: int
  inflight :: "nat option"

record server_state =
  cache :: shopsCache
  started :: nat
  outcomes :: "nat \<rightharpoonup> string + shops_payload"

definition isFreshCache :: "config \<Rightarrow> int \<Rightarrow> shopsCache \<Rightarrow> bool" where
  "isFreshCache cfg now c =
     (if payload c = None \<or> fetchedAt c = 0 then False
      else now - fetchedAt c < shopsCacheTtlMs cfg)"

text \<open>
  A call of \<open>getShopsPayload\<close> runs without interruption up to its first \<open>await\<close>: it
  has then either returned the cached payload or is waiting for a promise, with the
  source tag it will report. A fresh cache holds a payload, so the first case is the
  branch of \<open>isFreshCache()\<close>.
\<close>

datatype call = Returned shops_payload string | Awaits nat string

definition getShopsPayload :: "config \<Rightarrow> int \<Rightarrow> server_state \<Rightarrow> call \<times> server_state" where
  "getShopsPayload cfg now s =
     (case (isFreshCache cfg now (cache s), payload (cache s)) of
        (True, Some p) \<Rightarrow> (Returned p ''memory-fresh'', s)
      | _ \<Rightarrow>
        (case inflight (cache s) of
           Some promise \<Rightarrow> (Awaits promise ''memory-inflight'', s)
         | None \<Rightarrow>
             (Awaits (started s) ''notion-refresh'',
              s\<lparr>cache := (cache s)\<lparr>inflight := Some (started s)\<rparr>, started := started s + 1\<rparr>)))"

text \<open>
  The promise in flight settles at time \<open>now\<close> with the outcome of
  \<open>buildShopsPayload\<close>: on success the \<open>then\<close> callback stores the payload and the time,
  and in either case the \<open>finally\<close> callback clears \<open>inflight\<close>.
\<close>

definition settle_inflight :: "string + shops_payload \<Rightarrow> int \<Rightarrow> server_state \<Rightarrow> server_state" where
  "settle_inflight outcome now s =
     (case inflight (cache s) of
        None \<Rightarrow> s
      | Some promise \<Rightarrow>
          let c = (case outcome of
                     Inr p \<Rightarrow> (cache s)\<lparr>payload := Some p, fetchedAt := now\<rparr>
                   | Inl e \<Rightarrow> cache s)
          in s\<lparr>cache := c\<lparr>inflight := None\<rparr>, outcomes := (outcomes s)(promise \<mapsto> outcome)\<rparr>)"

text \<open>
  What a call of \<open>getShopsPayload\<close> finally gives its caller: \<open>None\<close> while its promise
  is pending, \<open>Inl\<close> when the awaited promise rejected.
\<close>

definition call_result :: "server_state \<Rightarrow> call \<Rightarrow> (string + shops_payload \<times> string) option" where
  "call_result s c =
     (case c of
        Returned p source \<Rightarrow> Some (Inr (p, source))
      | Awaits promise source \<Rightarrow>
          (case outcomes s promise of
             None \<Rightarrow> None
           | Some (Inl e) \<Rightarrow> Some (Inl e)
           | Some (Inr p) \<Rightarrow> Some (Inr (p, source))))"

text \<open>Calls arriving one after the other at the given times, nothing settling between them.\<close>

fun arrivals :: "config \<Rightarrow> int list \<Rightarrow> server_state \<Rightarrow> call list \<times> server_state" where
  "arrivals cfg [] s = ([], s)"
| "arrivals cfg (now # later) s =
     (let (c, s1) = getShopsPayload cfg now s;
          (cs, s2) = arrivals cfg later s1
      in (c # cs, s2))"

text \<open>The response of \<open>GET /api/shops\<close>, written when the handler's \<open>await\<close> is over.\<close>

datatype response_body = JsonPayload shops_payload | JsonError string string

record http_response =
  statusCode :: nat
  headers :: "(string \<times> string) list"
  json :: response_body

definition cacheControl :: "config \<Rightarrow> string" where
  "cacheControl cfg =
     ''public, s-maxage='' @ show_nat (edgeCacheSeconds cfg)
       @ '', stale-while-revalidate='' @ show_nat (edgeStaleSeconds cfg)"

definition api_shops ::
  "config \<Rightarrow> server_state \<Rightarrow> string + shops_payload \<times> string \<Rightarrow> http_response" where
  "api_shops cfg s result =
     (case result of
        Inr (p, source) \<Rightarrow>
          \<lparr>statusCode = 200,
           headers = [(''cache-control'', cacheControl cfg), (''x-shops-cache'', source)],
           json = JsonPayload p\<rparr>
      | Inl details \<Rightarrow>
          (case payload (cache s) of
             Some p \<Rightarrow>
               \<lparr>statusCode = 200,
                headers = [(''cache-control'', cacheControl cfg),
                           (''x-shops-cache'', ''memory-stale-on-error'')],
                json = JsonPayload p\<rparr>
           | None \<Rightarrow>
               \<lparr>statusCode = 500, headers = [],
                json = JsonError ''Failed to load Notion database.'' details\<rparr>))"

text \<open>The source tag a call reports, and the response of a request once its call is over.\<close>

definition call_source :: "call \<Rightarrow> string" where
  "call_source c = (case c of Returned p source \<Rightarrow> source | Awaits promise source \<Rightarrow> source)"

definition api_shops_response :: "config \<Rightarrow> server_state \<Rightarrow> call \<Rightarrow> http_response option" where
  "api_shops_response cfg s c = map_option (api_shops cfg s) (call_result s c)"

section \<open>Specification predicates\<close>

text \<open>
  A comparator is consistent on a set when its sign is antisymmetric and the relation
  \<open>c a b \<le> 0\<close> is transitive there; only then does the language fix the sorted order.
\<close>

definition consistent_on :: "'a set \<Rightarrow> ('a \<Rightarrow> 'a \<Rightarrow> int) \<Rightarrow> bool" where
  "consistent_on A c \<longleftrightarrow>
     (\<forall>a\<in>A. \<forall>b\<in>A. (c a b < 0) = (0 < c b a))
     \<and> (\<forall>a\<in>A. \<forall>b\<in>A. \<forall>d\<in>A. c a b \<le> 0 \<and> c b d \<le> 0 \<longrightarrow> c a d \<le> 0)"

text \<open>
  \<open>ys\<close> is \<open>xs\<close> rearranged in ascending order of \<open>c\<close>, and the elements that tie with
  any given element of \<open>xs\<close> stand in \<open>ys\<close> in the order they had in \<open>xs\<close>.
\<close>

definition stable_sort_of :: "('a \<Rightarrow> 'a \<Rightarrow> int) \<Rightarrow> 'a list \<Rightarrow> 'a list \<Rightarrow> bool" where
  "stable_sort_of c xs ys \<longleftrightarrow>
     mset ys = mset xs
     \<and> sorted_wrt (\<lambda>a b. c a b \<le> 0) ys
     \<and> (\<forall>k\<in>set xs. filter (\<lambda>y. c k y = 0) ys = filter (\<lambda>y. c k y = 0) xs)"

text \<open>The edit time of a shop in milliseconds, when its timestamp is a valid date.\<close>

definition timeValue :: "(string \<Rightarrow> int option) \<Rightarrow> 'a shop_item_scheme \<Rightarrow> int" where
  "timeValue dv s = (case dv (editedAt s) of None \<Rightarrow> 0 | Some t \<Rightarrow> t)"

text \<open>
  The reasons of the providers that \<open>fetchScreenshotBuffer\<close> rejected, in the order of
  the attempts.
\<close>

definition rejection_reasons :: "(string \<Rightarrow> fetch_result) \<Rightarrow> string \<Rightarrow> (string \<Rightarrow> string) list \<Rightarrow> string list" where
  "rejection_reasons fetch targetUrl providers =
     concat (map (\<lambda>p. case try_provider fetch targetUrl p of Reject m \<Rightarrow> [m] | _ \<Rightarrow> []) providers)"

text \<open>
  What holds of a preload state at every moment: the promise is fulfilled exactly when
  \<open>settled\<close> is set and pending otherwise, and the timeout is pending unless \<open>settled\<close>
  is set.
\<close>

definition preload_inv :: "preload \<Rightarrow> bool" where
  "preload_inv s \<longleftrightarrow>
     promiseState s = (if settled s then Fulfilled else Pending)
     \<and> (timer s \<or> settled s)"

text \<open>
  What holds in addition when the fallback URL reads back as it was assigned: \<open>img.src\<close>
  has been assigned once, or twice and then holds the fallback URL.
\<close>

definition single_switch :: "(string \<Rightarrow> string) \<Rightarrow> preload \<Rightarrow> bool" where
  "single_switch resolveUrl s \<longleftrightarrow>
     resolveUrl (fallbackUrl s) = fallbackUrl s
     \<and> (assignments s = 1 \<or> (assignments s = 2 \<and> src s = fallbackUrl s))"

section \<open>Example inputs\<close>

definition example_shop :: shop where
  "example_shop =
     \<lparr>shop_id = ''p1'', title = ''Acme'', url = ''https://acme.test/'', category = ''Food'',
      tags = [''typography''], shop_notes = ''Snacks'', editedAt = ''2024-01-01T00:00:00.000Z'',
      screenshot = ''/api/screenshot?u=https%3A%2F%2Facme.test%2F&sv=v3''\<rparr>"

definition example_gallery :: "nat \<Rightarrow> nat \<Rightarrow> gallery_state" where
  "example_gallery n page =
     \<lparr>allShops = replicate n example_shop, filteredShops = replicate n example_shop,
      activeCategory = ''all'', activeTag = ''all'', activeSummary = [],
      activeSort = ''recent'', currentPage = page, isAutoLoading = False,
      galleryCards = take (min n (page * 12)) (replicate n example_shop)\<rparr>"

text \<open>A consistent comparator to run the sort on: code-unit order.\<close>

definition codeUnitCompare :: "string \<Rightarrow> string \<Rightarrow> int" where
  "codeUnitCompare a b = (if a < b then - 1 else if a = b then 0 else 1)"

definition example_dateValue :: "string \<Rightarrow> int option" where
  "example_dateValue s =
     (if s = ''2024-01-01T00:00:00.000Z'' then Some 1704067200000
      else if s = ''2024-01-02T00:00:00.000Z'' then Some 1704153600000
      else None)"

definition example_titled :: "string \<Rightarrow> string \<Rightarrow> string \<Rightarrow> shop" where
  "example_titled i t e = example_shop\<lparr>shop_id := i, title := t, editedAt := e\<rparr>"

definition example_zed :: shop where
  "example_zed = example_titled ''p1'' ''Zed'' ''2024-01-01T00:00:00.000Z''"

definition example_acme :: shop where
  "example_acme = example_titled ''p2'' ''Acme'' ''2024-01-02T00:00:00.000Z''"

definition example_mono :: shop where
  "example_mono = example_titled ''p3'' ''Mono'' ''2024-01-01T00:00:00.000Z''"

text \<open>
  A configuration, a cache directory with one entry, a parser that knows three texts, and
  a reading of strings as numbers that knows the unsigned decimal integers.
\<close>

definition example_config :: config where
  "example_config =
     \<lparr>screenshotCacheDir = ''/tmp/shop-haul-screenshots'', screenshotTtlHours = 168,
      shopsCacheTtlSeconds = 300, edgeCacheSeconds = 60, edgeStaleSeconds = 300,
      databaseId = ''db1''\<rparr>"

definition example_meta_png :: string where
  \<open>example_meta_png = ''{"contentType":"image/png","fetchedAt":1000}''\<close>

definition example_meta_html :: string where
  \<open>example_meta_html = ''{"contentType":"text/html","fetchedAt":1000}''\<close>

definition example_meta_undated :: string where
  \<open>example_meta_undated = ''{"contentType":"image/png"}''\<close>

definition example_JSON_parse :: "string \<Rightarrow> string + jsval" where
  \<open>example_JSON_parse raw =
     (if raw = ''{"contentType":"image/png","fetchedAt":1000}''
      then Inr (JObj [(''contentType'', JStr ''image/png''), (''fetchedAt'', JNum 1000)])
      else if raw = ''{"contentType":"text/html","fetchedAt":1000}''
      then Inr (JObj [(''contentType'', JStr ''text/html''), (''fetchedAt'', JNum 1000)])
      else if raw = ''{"contentType":"image/png"}''
      then Inr (JObj [(''contentType'', JStr ''image/png'')])
      else Inl ''Unexpected token'')\<close>

definition example_StringToNumber :: "string \<Rightarrow> jsnum" where
  "example_StringToNumber s =
     (if list_all (\<lambda>c. 48 \<le> (of_char c :: nat) \<and> (of_char c :: nat) \<le> 57) (trim s)
      then Num (foldl (\<lambda>a c. 10 * a + (of_char c - 48)) 0 (trim s))
      else NaN)"

definition example_fs :: "string \<Rightarrow> filesystem" where
  "example_fs raw =
     [''/tmp/shop-haul-screenshots/ab12.json'' \<mapsto> raw,
      ''/tmp/shop-haul-screenshots/ab12.bin'' \<mapsto> ''PNG-bytes'']"

definition example_payload :: shops_payload where
  "example_payload =
     \<lparr>shops = [example_shop], categories = [''Food''], tags = [''typography''], count = 1,
      totalRows = 1, shopsWithUrl = 1, databaseId = ''db1''\<rparr>"

definition example_cache :: shopsCache where
  "example_cache = \<lparr>payload = Some example_payload, fetchedAt = 1000, inflight = None\<rparr>"

text \<open>A network in which the screenshot provider answers 502 and no other host resolves.\<close>

definition example_backup_provider :: "string \<Rightarrow> string" where
  "example_backup_provider targetUrl = ''https://backup.test/shot?u='' @ encodeURIComponent targetUrl"

definition example_fetch_down :: "string \<Rightarrow> fetch_result" where
  "example_fetch_down upstream =
     (if startsWith upstream ''https://image.thum.io/''
      then Resolves \<lparr>status = 502, contentTypeHeader = Some ''text/html'',
                     arrayBuffer = Inr ''Bad Gateway''\<rparr>
      else Rejects ''getaddrinfo ENOTFOUND backup.test'')"

text \<open>Three rows from the database and the payload built from them.\<close>

definition example_item :: "string \<Rightarrow> string \<Rightarrow> string \<Rightarrow> string \<Rightarrow> string list \<Rightarrow> shop_item" where
  "example_item i t u c ts =
     \<lparr>shop_id = i, title = t, url = u, category = c, tags = ts, shop_notes = [],
      editedAt = ''2024-01-01T00:00:00.000Z''\<rparr>"

definition example_notion :: notion_data where
  "example_notion =
     \<lparr>items = [example_item ''p1'' ''Zed'' ''https://zed.test/a b'' '' Bags '' [''typography'', ''minimalism''],
               example_item ''p2'' ''Acme'' ''https://acme.test/'' ''Food'' [''typography'', '' graphics ''],
               example_item ''p3'' ''Mono'' ''https://mono.test/'' [] [''  '']],
      totalRows = 5, shopsWithUrl = 3\<rparr>"

definition example_built :: shops_payload where
  "example_built =
     \<lparr>shops =
        [\<lparr>shop_id = ''p1'', title = ''Zed'', url = ''https://zed.test/a b'',
          category = '' Bags '', tags = [''typography'', ''minimalism''],
          shop_notes = [], editedAt = ''2024-01-01T00:00:00.000Z'',
          screenshot = ''/api/screenshot?u=https%3A%2F%2Fzed.test%2Fa%20b&sv=v3''\<rparr>,
         \<lparr>shop_id = ''p2'', title = ''Acme'', url = ''https://acme.test/'',
          category = ''Food'', tags = [''typography'', '' graphics ''],
          shop_notes = [], editedAt = ''2024-01-01T00:00:00.000Z'',
          screenshot = ''/api/screenshot?u=https%3A%2F%2Facme.test%2F&sv=v3''\<rparr>,
         \<lparr>shop_id = ''p3'', title = ''Mono'', url = ''https://mono.test/'',
          category = [], tags = [''  ''], shop_notes = [],
          editedAt = ''2024-01-01T00:00:00.000Z'',
          screenshot = ''/api/screenshot?u=https%3A%2F%2Fmono.test%2F&sv=v3''\<rparr>],
      categories = [''Bags'', ''Food''],
      tags = [''graphics'', ''minimalism'', ''typography''], count = 3,
      totalRows = 5, shopsWithUrl = 3, databaseId = ''db1''\<rparr>"

text \<open>A server that has started no fetch yet, around a given cache, and the empty cache.\<close>

definition example_server :: "shopsCache \<Rightarrow> server_state" where
  "example_server c = \<lparr>cache = c, started = 0, outcomes = Map.empty\<rparr>"

definition empty_cache :: shopsCache where
  "empty_cache = \<lparr>payload = None, fetchedAt = 0, inflight = None\<rparr>"

text \<open>
  The two URLs of a preload, a fallback URL written with an upper-case host, and a
  resolution that puts that host in lower case and leaves the other URLs as they are.
\<close>

definition example_fallback_raw :: string where
  "example_fallback_raw = ''https://B.test/y.png''"

definition example_resolveUrl :: "string \<Rightarrow> string" where
  "example_resolveUrl u = (if u = ''https://B.test/y.png'' then ''https://b.test/y.png'' else u)"

definition example_primary :: string where
  "example_primary = ''https://screenshotof.com/acme.test''"

definition example_fallback :: string where
  "example_fallback = ''https://image.thum.io/get/width/3308/crop/1900/noanimate/https%3A%2F%2Facme.test%2F''"

section \<open>Sorting with a comparator\<close>

lemma consistent_on_anti:
  "consistent_on A c \<Longrightarrow> a \<in> A \<Longrightarrow> b \<in> A \<Longrightarrow> (c a b < 0) = (0 < c b a)"
  by (simp add: consistent_on_def)

lemma consistent_on_trans:
  "consistent_on A c \<Longrightarrow> a \<in> A \<Longrightarrow> b \<in> A \<Longrightarrow> d \<in> A \<Longrightarrow> c a b \<le> 0 \<Longrightarrow> c b d \<le> 0
   \<Longrightarrow> c a d \<le> 0"
  unfolding consistent_on_def by blast

lemma consistent_on_subset: "consistent_on A c \<Longrightarrow> B \<subseteq> A \<Longrightarrow> consistent_on B c"
  unfolding consistent_on_def by (intro conjI ballI impI; blast)

lemma consistent_on_flip: "consistent_on A c \<Longrightarrow> consistent_on A (\<lambda>a b. c b a)"
  unfolding consistent_on_def by (intro conjI ballI impI; blast)

lemma consistent_on_key: "consistent_on (f ` A) c \<Longrightarrow> consistent_on A (\<lambda>a b. c (f a) (f b))"
  unfolding consistent_on_def by (intro conjI ballI impI; blast)

lemma consistent_on_diff: "consistent_on A (\<lambda>a b. (f a :: int) - f b)"
  unfolding consistent_on_def by auto

lemma mset_insert_by: "mset (insert_by c x ys) = add_mset x (mset ys)"
  by (induction ys) simp_all

lemma mset_js_sort: "mset (js_sort c xs) = mset xs"
  unfolding js_sort_def by (induction xs) (simp_all add: mset_insert_by)

lemma set_insert_by: "set (insert_by c x ys) = insert x (set ys)"
  by (induction ys) auto

lemma set_js_sort: "set (js_sort c xs) = set xs"
  using mset_js_sort [of c xs] by (metis set_mset_mset)

lemma sorted_insert_by:
  assumes "consistent_on A c" "x \<in> A" "set ys \<subseteq> A" "sorted_wrt (\<lambda>a b. c a b \<le> 0) ys"
  shows "sorted_wrt (\<lambda>a b. c a b \<le> 0) (insert_by c x ys)"
  using assms(3,4)
proof (induction ys)
  case Nil
  then show ?case by simp
next
  case (Cons y ys)
  show ?case
  proof (cases "c x y \<le> 0")
    case True
    have "c x z \<le> 0" if "z \<in> set ys" for z
    proof -
      have "c y z \<le> 0" using Cons.prems(2) that by simp
      moreover have "y \<in> A" "z \<in> A" using Cons.prems(1) that by auto
      ultimately show ?thesis
        using consistent_on_trans [OF assms(1) assms(2), of y z] True by simp
    qed
    with True Cons.prems(2) show ?thesis by simp
  next
    case False
    have yA: "y \<in> A" using Cons.prems(1) by simp
    have "c y x < 0" using False consistent_on_anti [OF assms(1) yA assms(2)] by simp
    moreover have "sorted_wrt (\<lambda>a b. c a b \<le> 0) (insert_by c x ys)"
      using Cons by simp
    ultimately show ?thesis
      using False Cons.prems(2) by (auto simp: set_insert_by)
  qed
qed

lemma sorted_js_sort:
  "consistent_on A c \<Longrightarrow> set xs \<subseteq> A \<Longrightarrow> sorted_wrt (\<lambda>a b. c a b \<le> 0) (js_sort c xs)"
proof (induction xs)
  case Nil
  then show ?case by (simp add: js_sort_def)
next
  case (Cons x xs)
  have "sorted_wrt (\<lambda>a b. c a b \<le> 0) (insert_by c x (js_sort c xs))"
    using Cons by (intro sorted_insert_by [of A]) (auto simp: set_js_sort)
  then show ?case by (simp add: js_sort_def)
qed

lemma filter_insert_by_other: "\<not> P x \<Longrightarrow> filter P (insert_by c x ys) = filter P ys"
  by (induction ys) simp_all

lemma filter_insert_by_tie:
  assumes "consistent_on A c" "x \<in> A" "k \<in> A" "c k x = 0"
  shows "set ys \<subseteq> A \<Longrightarrow> filter (\<lambda>y. c k y = 0) (insert_by c x ys) = x # filter (\<lambda>y. c k y = 0) ys"
proof (induction ys)
  case Nil
  then show ?case using assms(4) by simp
next
  case (Cons y ys)
  show ?case
  proof (cases "c x y \<le> 0")
    case True
    then show ?thesis using assms(4) by simp
  next
    case False
    have yA: "y \<in> A" using Cons.prems by simp
    have "\<not> 0 < c x k"
      using consistent_on_anti [OF assms(1) assms(3) assms(2)] assms(4) by simp
    then have "c x k \<le> 0" by simp
    then have "c k y \<noteq> 0"
      using False consistent_on_trans [OF assms(1) assms(2) assms(3) yA] by auto
    then show ?thesis using False Cons by simp
  qed
qed

lemma js_sort_stable:
  assumes "consistent_on A c" "k \<in> A"
  shows "set xs \<subseteq> A \<Longrightarrow> filter (\<lambda>y. c k y = 0) (js_sort c xs) = filter (\<lambda>y. c k y = 0) xs"
proof (induction xs)
  case Nil
  then show ?case by (simp add: js_sort_def)
next
  case (Cons x xs)
  have step: "js_sort c (x # xs) = insert_by c x (js_sort c xs)" by (simp add: js_sort_def)
  show ?case
  proof (cases "c k x = 0")
    case True
    have "filter (\<lambda>y. c k y = 0) (insert_by c x (js_sort c xs)) = x # filter (\<lambda>y. c k y = 0) (js_sort c xs)"
      using assms True Cons.prems by (intro filter_insert_by_tie [of A]) (auto simp: set_js_sort)
    then show ?thesis using True Cons step by simp
  next
    case False
    then show ?thesis using Cons step by (simp add: filter_insert_by_other)
  qed
qed

lemma js_sort_stable_sort_of:
  "consistent_on (set xs) c \<Longrightarrow> stable_sort_of c xs (js_sort c xs)"
  unfolding stable_sort_of_def
  using mset_js_sort [of c xs] sorted_js_sort [of "set xs" c xs] js_sort_stable [of "set xs" c _ xs]
  by simp

lemma consistent_codeUnitCompare: "consistent_on A codeUnitCompare"
  unfolding consistent_on_def codeUnitCompare_def by (auto simp: not_less)

lemma insert_by_cong:
  "(\<And>b. b \<in> set ys \<Longrightarrow> c x b = c' x b) \<Longrightarrow> insert_by c x ys = insert_by c' x ys"
  by (induction ys) simp_all

lemma js_sort_cong:
  "(\<And>a b. a \<in> set xs \<Longrightarrow> b \<in> set xs \<Longrightarrow> c a b = c' a b) \<Longrightarrow> js_sort c xs = js_sort c' xs"
proof (induction xs)
  case Nil
  then show ?case by (simp add: js_sort_def)
next
  case (Cons x xs)
  have "js_sort c xs = js_sort c' xs" using Cons by simp
  moreover have "insert_by c x (js_sort c' xs) = insert_by c' x (js_sort c' xs)"
    using Cons.prems by (intro insert_by_cong) (simp add: set_js_sort)
  ultimately show ?case by (simp add: js_sort_def)
qed

lemma consistent_three:
  assumes "consistent_on UNIV c" "c a m < 0" "c m z < 0"
  shows "0 < c m a" "0 < c z m" "0 < c z a"
proof -
  show ma: "0 < c m a" using consistent_on_anti [OF assms(1), of a m] assms(2) by simp
  show zm: "0 < c z m" using consistent_on_anti [OF assms(1), of m z] assms(3) by simp
  have "\<not> c z a \<le> 0"
  proof
    assume "c z a \<le> 0"
    moreover have "c a m \<le> 0" using assms(2) by simp
    ultimately have "c z m \<le> 0"
      using consistent_on_trans [OF assms(1), of z a m] by simp
    then show False using zm by simp
  qed
  then show "0 < c z a" by simp
qed

lemma js_sort_three_asc:
  assumes "consistent_on UNIV c" "c a m < 0" "c m z < 0"
  shows "js_sort c [z, a, m] = [a, m, z]"
  using consistent_three [OF assms] assms(2) by (simp add: js_sort_def)

lemma js_sort_three_desc:
  assumes "consistent_on UNIV c" "c a m < 0" "c m z < 0"
  shows "js_sort (\<lambda>x y. c y x) [z, a, m] = [z, m, a]"
  using consistent_three [OF assms] assms(3) by (simp add: js_sort_def)

section \<open>Properties of the gallery client\<close>

text \<open>
  C6. The number of visible shops is \<open>min (length filteredShops) (currentPage * 12)\<close>;
  \<open>loadMore\<close> adds exactly one to the page when fewer shops are visible than pass the
  filters and changes nothing otherwise. With 30 filtered shops on page 1 the visible
  count goes 12, 24, 30, and a third \<open>loadMore\<close> leaves it at 30.
\<close>

theorem visibleCount_loadMore:
  "visibleCount s = min (length (filteredShops s)) (currentPage s * 12)
   \<and> length (visibleShops s) = min (length (filteredShops s)) (currentPage s * 12)
   \<and> (visibleCount s < length (filteredShops s) \<longrightarrow>
        currentPage (loadMore s) = currentPage s + 1
        \<and> filteredShops (loadMore s) = filteredShops s)
   \<and> (\<not> visibleCount s < length (filteredShops s) \<longrightarrow> loadMore s = s)
   \<and> (length (filteredShops s) = 30 \<and> currentPage s = 1 \<longrightarrow>
        visibleCount s = 12
        \<and> visibleCount (loadMore s) = 24
        \<and> visibleCount (loadMore (loadMore s)) = 30
        \<and> visibleCount (loadMore (loadMore (loadMore s))) = 30
        \<and> loadMore (loadMore (loadMore s)) = loadMore (loadMore s))"
  by (simp add: visibleCount_def visibleShops_def loadMore_def hasMoreShops_def
      renderGallery_def PAGE_SIZE_def)

theorem visibleCount_loadMore_witness:
  "length (filteredShops (example_gallery 30 1)) = 30
   \<and> currentPage (example_gallery 30 1) = 1
   \<and> visibleCount (example_gallery 30 1) < length (filteredShops (example_gallery 30 1))
   \<and> currentPage (loadMore (example_gallery 30 1)) = 2
   \<and> visibleCount (loadMore (example_gallery 30 1)) = 24
   \<and> visibleCount (loadMore (loadMore (example_gallery 30 1))) = 30
   \<and> \<not> visibleCount (example_gallery 30 3) < length (filteredShops (example_gallery 30 3))
   \<and> loadMore (example_gallery 30 3) = example_gallery 30 3"
  using visibleCount_loadMore [of "example_gallery 30 1"]
    visibleCount_loadMore [of "example_gallery 30 3"]
  by (simp add: example_gallery_def)

text \<open>
  C7. Each listener that changes a filter (category, tag, summary text) or the sort
  stores the new value and leaves the page at 1, whatever it was before; \<open>loadMore\<close>
  changes neither the filters nor the sort nor the filtered list.
\<close>

theorem filter_change_resets_page:
  "currentPage (categoryChange lc dv v s) = 1 \<and> activeCategory (categoryChange lc dv v s) = v
   \<and> currentPage (tagChange lc dv v s) = 1 \<and> activeTag (tagChange lc dv v s) = v
   \<and> currentPage (summaryInput lc dv v s) = 1 \<and> activeSummary (summaryInput lc dv v s) = v
   \<and> currentPage (sortChange lc dv v s) = 1 \<and> activeSort (sortChange lc dv v s) = v
   \<and> currentPage (resetFilters lc dv s) = 1
   \<and> activeCategory (loadMore s) = activeCategory s
   \<and> activeTag (loadMore s) = activeTag s
   \<and> activeSummary (loadMore s) = activeSummary s
   \<and> activeSort (loadMore s) = activeSort s
   \<and> allShops (loadMore s) = allShops s
   \<and> filteredShops (loadMore s) = filteredShops s"
  by (simp add: categoryChange_def tagChange_def summaryInput_def sortChange_def
      resetFilters_def refreshAndRender_def renderGallery_def computeFilteredShops_def
      loadMore_def Let_def)

theorem filter_change_resets_page_witness:
  "currentPage (example_gallery 30 3) = 3
   \<and> currentPage (categoryChange codeUnitCompare example_dateValue ''Food'' (example_gallery 30 3)) = 1
   \<and> activeCategory (categoryChange codeUnitCompare example_dateValue ''Food'' (example_gallery 30 3))
       = ''Food''
   \<and> currentPage (sortChange codeUnitCompare example_dateValue ''az'' (example_gallery 30 3)) = 1
   \<and> activeSort (loadMore (example_gallery 30 1)) = ''recent''
   \<and> activeCategory (loadMore (example_gallery 30 1)) = ''all''
   \<and> currentPage (loadMore (example_gallery 30 1)) = 2"
proof -
  have page: "currentPage (example_gallery 30 3) = 3"
    and sort: "activeSort (example_gallery 30 1) = ''recent''"
    and cat: "activeCategory (example_gallery 30 1) = ''all''"
    by (simp_all add: example_gallery_def)
  have more: "currentPage (loadMore (example_gallery 30 1)) = 2"
    by (simp add: example_gallery_def loadMore_def hasMoreShops_def visibleCount_def
        renderGallery_def PAGE_SIZE_def)
  show ?thesis
    using filter_change_resets_page [of codeUnitCompare example_dateValue "''Food''" "example_gallery 30 3"]
      filter_change_resets_page [of codeUnitCompare example_dateValue "''az''" "example_gallery 30 3"]
      filter_change_resets_page [of codeUnitCompare example_dateValue "''az''" "example_gallery 30 1"]
      page sort cat more
    by simp
qed

text \<open>
  C8. With a consistent \<open>localeCompare\<close>, \<open>sortShops\<close> returns the shops in ascending
  order of title for \<open>az\<close> and in descending order for \<open>za\<close>; when every edit timestamp
  is a valid date it returns them oldest first for \<open>oldest\<close> and newest first for
  \<open>recent\<close>. In each case the result is a rearrangement of the input in which shops that
  compare equal keep their relative order. Titles \<open>Zed\<close>, \<open>Acme\<close>, \<open>Mono\<close> come out as
  \<open>Acme\<close>, \<open>Mono\<close>, \<open>Zed\<close> under \<open>az\<close> and in the reverse order under \<open>za\<close>.
\<close>

theorem sortShops_stable_sorted:
  "consistent_on UNIV lc \<longrightarrow>
     stable_sort_of (\<lambda>a b. lc (title a) (title b)) xs (sortShops lc dv ''az'' xs)
     \<and> stable_sort_of (\<lambda>a b. lc (title b) (title a)) xs (sortShops lc dv ''za'' xs)
     \<and> ((\<forall>s\<in>set xs. dv (editedAt s) \<noteq> None) \<longrightarrow>
          stable_sort_of (\<lambda>a b. timeValue dv a - timeValue dv b) xs (sortShops lc dv ''oldest'' xs)
          \<and> stable_sort_of (\<lambda>a b. timeValue dv b - timeValue dv a) xs (sortShops lc dv ''recent'' xs))
     \<and> (lc ''Acme'' ''Mono'' < 0 \<and> lc ''Mono'' ''Zed'' < 0
          \<and> title z = ''Zed'' \<and> title a = ''Acme'' \<and> title m = ''Mono'' \<longrightarrow>
          sortShops lc dv ''az'' [z, a, m] = [a, m, z]
          \<and> sortShops lc dv ''za'' [z, a, m] = [z, m, a])"
proof (intro impI conjI)
  assume lc: "consistent_on UNIV lc"
  have "consistent_on (set xs) (\<lambda>a b. lc (title a) (title b))"
    by (rule consistent_on_key) (rule consistent_on_subset [OF lc], simp)
  then show "stable_sort_of (\<lambda>a b. lc (title a) (title b)) xs (sortShops lc dv ''az'' xs)"
    by (simp add: sortShops_def js_sort_stable_sort_of)
  have "consistent_on (set xs) (\<lambda>a b. lc (title b) (title a))"
    by (rule consistent_on_flip, rule consistent_on_key) (rule consistent_on_subset [OF lc], simp)
  then show "stable_sort_of (\<lambda>a b. lc (title b) (title a)) xs (sortShops lc dv ''za'' xs)"
    by (simp add: sortShops_def js_sort_stable_sort_of)
next
  assume valid: "\<forall>s\<in>set xs. dv (editedAt s) \<noteq> None"
  have eq: "date_diff dv (editedAt a) (editedAt b) = timeValue dv a - timeValue dv b"
    if "a \<in> set xs" "b \<in> set xs" for a b :: "'a shop_item_scheme"
    using valid that by (auto simp: date_diff_def timeValue_def split: option.splits)
  have asc: "consistent_on (set xs) (\<lambda>a b. timeValue dv a - timeValue dv b)"
    by (rule consistent_on_diff)
  have "js_sort (\<lambda>a b. date_diff dv (editedAt a) (editedAt b)) xs
        = js_sort (\<lambda>a b. timeValue dv a - timeValue dv b) xs"
    by (rule js_sort_cong) (rule eq)
  then show "stable_sort_of (\<lambda>a b. timeValue dv a - timeValue dv b) xs (sortShops lc dv ''oldest'' xs)"
    using js_sort_stable_sort_of [OF asc] by (simp add: sortShops_def)
  have "js_sort (\<lambda>a b. date_diff dv (editedAt b) (editedAt a)) xs
        = js_sort (\<lambda>a b. timeValue dv b - timeValue dv a) xs"
    by (rule js_sort_cong) (rule eq)
  then show "stable_sort_of (\<lambda>a b. timeValue dv b - timeValue dv a) xs (sortShops lc dv ''recent'' xs)"
    using js_sort_stable_sort_of [OF consistent_on_flip [OF asc]] by (simp add: sortShops_def)
next
  assume lc: "consistent_on UNIV lc"
  assume ex: "lc ''Acme'' ''Mono'' < 0 \<and> lc ''Mono'' ''Zed'' < 0
          \<and> title z = ''Zed'' \<and> title a = ''Acme'' \<and> title m = ''Mono''"
  have key: "consistent_on UNIV (\<lambda>a b. lc (title a) (title b))"
    by (rule consistent_on_key) (rule consistent_on_subset [OF lc], simp)
  have am: "lc (title a) (title m) < 0" and mz: "lc (title m) (title z) < 0"
    using ex by simp_all
  show "sortShops lc dv ''az'' [z, a, m] = [a, m, z]"
    using js_sort_three_asc [OF key am mz] by (simp add: sortShops_def)
  show "sortShops lc dv ''za'' [z, a, m] = [z, m, a]"
    using js_sort_three_desc [OF key am mz] by (simp add: sortShops_def)
qed

theorem sortShops_stable_sorted_witness:
  "consistent_on UNIV codeUnitCompare
   \<and> example_dateValue (editedAt example_zed) = Some 1704067200000
   \<and> example_dateValue (editedAt example_acme) = Some 1704153600000
   \<and> example_dateValue (editedAt example_mono) = Some 1704067200000
   \<and> codeUnitCompare ''Acme'' ''Mono'' < 0 \<and> codeUnitCompare ''Mono'' ''Zed'' < 0
   \<and> sortShops codeUnitCompare example_dateValue ''az'' [example_zed, example_acme, example_mono]
       = [example_acme, example_mono, example_zed]
   \<and> sortShops codeUnitCompare example_dateValue ''za'' [example_zed, example_acme, example_mono]
       = [example_zed, example_mono, example_acme]
   \<and> stable_sort_of (\<lambda>a b. timeValue example_dateValue b - timeValue example_dateValue a)
        [example_zed, example_acme, example_mono]
        (sortShops codeUnitCompare example_dateValue ''recent'' [example_zed, example_acme, example_mono])
   \<and> stable_sort_of (\<lambda>a b. timeValue example_dateValue a - timeValue example_dateValue b)
        [example_zed, example_acme, example_mono]
        (sortShops codeUnitCompare example_dateValue ''oldest'' [example_zed, example_acme, example_mono])"
proof -
  have c: "consistent_on UNIV codeUnitCompare"
    by (rule consistent_codeUnitCompare)
  have d: "example_dateValue (editedAt example_zed) = Some 1704067200000"
    "example_dateValue (editedAt example_acme) = Some 1704153600000"
    "example_dateValue (editedAt example_mono) = Some 1704067200000"
    by (simp_all add: example_dateValue_def example_zed_def example_acme_def example_mono_def
        example_titled_def)
  have e: "codeUnitCompare ''Acme'' ''Mono'' < 0" "codeUnitCompare ''Mono'' ''Zed'' < 0"
    by (simp_all add: codeUnitCompare_def)
  have t: "title example_zed = ''Zed''" "title example_acme = ''Acme''" "title example_mono = ''Mono''"
    by (simp_all add: example_zed_def example_acme_def example_mono_def example_titled_def)
  have v: "\<forall>s\<in>set [example_zed, example_acme, example_mono]. example_dateValue (editedAt s) \<noteq> None"
    using d by simp
  show ?thesis
    using sortShops_stable_sorted [of codeUnitCompare "[example_zed, example_acme, example_mono]"
        example_dateValue example_zed example_acme example_mono] c d e t v
    by blast
qed

section \<open>Properties of the server\<close>

subsection \<open>Reading the screenshot cache\<close>

lemma readCacheEntry_unreadable:
  "fs (metaPath (pathsForKey cfg key)) = None \<or> fs (binPath (pathsForKey cfg key)) = None
   \<Longrightarrow> readCacheEntry JP SN cfg now fs key = Inr None"
  by (auto simp: readCacheEntry_def readCacheEntry_try_def readFile_def Let_def
      split: option.splits sum.splits)

lemma readCacheEntry_unparsable:
  "fs (metaPath (pathsForKey cfg key)) = Some raw \<Longrightarrow> JP raw = Inl e
   \<Longrightarrow> readCacheEntry JP SN cfg now fs key = Inr None"
  by (auto simp: readCacheEntry_def readCacheEntry_try_def readFile_def Let_def
      split: option.splits sum.splits)

lemma readCacheEntry_missing_field:
  "fs (metaPath (pathsForKey cfg key)) = Some raw \<Longrightarrow> JP raw = Inr meta
   \<Longrightarrow> \<not> truthy (get_prop meta ''fetchedAt'') \<or> \<not> truthy (get_prop meta ''contentType'')
   \<Longrightarrow> readCacheEntry JP SN cfg now fs key = Inr None"
  by (auto simp: readCacheEntry_def readCacheEntry_try_def readFile_def Let_def
      split: option.splits sum.splits)

lemma readCacheEntry_not_image:
  "fs (metaPath (pathsForKey cfg key)) = Some raw \<Longrightarrow> JP raw = Inr meta
   \<Longrightarrow> js_String (get_prop meta ''contentType'') = Inr ct
   \<Longrightarrow> \<not> startsWith (toLowerCase ct) ''image/''
   \<Longrightarrow> readCacheEntry JP SN cfg now fs key = Inr None"
  by (auto simp: readCacheEntry_def readCacheEntry_try_def readFile_def Let_def
      split: option.splits sum.splits)

lemma readCacheEntry_expired:
  "fs (metaPath (pathsForKey cfg key)) = Some raw \<Longrightarrow> JP raw = Inr meta
   \<Longrightarrow> js_Number SN (get_prop meta ''fetchedAt'') = Inr (Num t)
   \<Longrightarrow> now - t > screenshotTtlMs cfg
   \<Longrightarrow> readCacheEntry JP SN cfg now fs key = Inr None"
  by (auto simp: readCacheEntry_def readCacheEntry_try_def readFile_def Let_def
      split: option.splits sum.splits)

lemma readCacheEntry_never_throws:
  "\<exists>r. readCacheEntry JP SN cfg now fs key = Inr r"
  by (auto simp: readCacheEntry_def split: sum.splits)

lemma startsWith_nonempty: "startsWith (toLowerCase ct) ''image/'' \<Longrightarrow> ct \<noteq> []"
  by (auto simp: startsWith_def toLowerCase_def)

lemma readCacheEntry_valid:
  assumes "fs (metaPath (pathsForKey cfg key)) = Some raw"
    and "fs (binPath (pathsForKey cfg key)) = Some bin"
    and "JP raw = Inr meta"
    and "get_prop meta ''fetchedAt'' = JNum t" and "t \<noteq> 0"
    and "get_prop meta ''contentType'' = JStr ct"
    and "startsWith (toLowerCase ct) ''image/''"
  shows "readCacheEntry JP SN cfg now fs key
         = Inr (if now - t \<le> screenshotTtlMs cfg
                then Some \<lparr>contentType = JStr ct, body = bin\<rparr> else None)"
  using assms startsWith_nonempty [OF assms(7)]
  by (simp add: readCacheEntry_def readCacheEntry_try_def readFile_def Let_def)

lemma isFreshCache_iff:
  "isFreshCache cfg now c
   = (payload c \<noteq> None \<and> fetchedAt c \<noteq> 0 \<and> now - fetchedAt c < shopsCacheTtlMs cfg)"
  by (simp add: isFreshCache_def)

lemma example_paths:
  "example_fs raw (metaPath (pathsForKey example_config ''ab12'')) = Some raw"
  "example_fs raw (binPath (pathsForKey example_config ''ab12'')) = Some ''PNG-bytes''"
  "example_fs raw (metaPath (pathsForKey example_config ''ffff'')) = None"
  by (simp_all add: example_fs_def pathsForKey_def example_config_def)

lemma example_parses:
  "example_JSON_parse example_meta_png
     = Inr (JObj [(''contentType'', JStr ''image/png''), (''fetchedAt'', JNum 1000)])"
  "example_JSON_parse example_meta_html
     = Inr (JObj [(''contentType'', JStr ''text/html''), (''fetchedAt'', JNum 1000)])"
  "example_JSON_parse example_meta_undated = Inr (JObj [(''contentType'', JStr ''image/png'')])"
  "example_JSON_parse ''junk'' = Inl ''Unexpected token''"
  by (simp_all add: example_JSON_parse_def example_meta_png_def example_meta_html_def
      example_meta_undated_def)

lemma example_ttls:
  "screenshotTtlMs example_config = 604800000" "shopsCacheTtlMs example_config = 300000"
  by (simp_all add: screenshotTtlMs_def shopsCacheTtlMs_def example_config_def)

lemma example_types:
  "startsWith (toLowerCase ''image/png'') ''image/''"
  "\<not> startsWith (toLowerCase ''text/html'') ''image/''"
  by code_simp+

text \<open>
  C4. \<open>readCacheEntry\<close> never throws. It returns \<open>null\<close> when the metadata or the payload
  file cannot be read, when the metadata does not parse, when \<open>fetchedAt\<close> or
  \<open>contentType\<close> is missing (or otherwise falsy), when the content type does not start
  with \<open>image/\<close>, and when the age exceeds the TTL. For an entry with a numeric
  \<open>fetchedAt\<close>, an image content type and an age within the TTL it returns the stored
  content type and the payload bytes as they are.
\<close>

theorem readCacheEntry_fails_soft:
  "(\<exists>r. readCacheEntry JP SN cfg now fs key = Inr r)
   \<and> (fs (metaPath (pathsForKey cfg key)) = None \<or> fs (binPath (pathsForKey cfg key)) = None
        \<longrightarrow> readCacheEntry JP SN cfg now fs key = Inr None)
   \<and> (fs (metaPath (pathsForKey cfg key)) = Some raw \<and> JP raw = Inl e
        \<longrightarrow> readCacheEntry JP SN cfg now fs key = Inr None)
   \<and> (fs (metaPath (pathsForKey cfg key)) = Some raw \<and> JP raw = Inr meta
        \<and> (\<not> truthy (get_prop meta ''fetchedAt'') \<or> \<not> truthy (get_prop meta ''contentType''))
        \<longrightarrow> readCacheEntry JP SN cfg now fs key = Inr None)
   \<and> (fs (metaPath (pathsForKey cfg key)) = Some raw \<and> JP raw = Inr meta
        \<and> js_String (get_prop meta ''contentType'') = Inr ct
        \<and> \<not> startsWith (toLowerCase ct) ''image/''
        \<longrightarrow> readCacheEntry JP SN cfg now fs key = Inr None)
   \<and> (fs (metaPath (pathsForKey cfg key)) = Some raw \<and> JP raw = Inr meta
        \<and> js_Number SN (get_prop meta ''fetchedAt'') = Inr (Num t)
        \<and> now - t > screenshotTtlMs cfg
        \<longrightarrow> readCacheEntry JP SN cfg now fs key = Inr None)
   \<and> (fs (metaPath (pathsForKey cfg key)) = Some raw
        \<and> fs (binPath (pathsForKey cfg key)) = Some bin \<and> JP raw = Inr meta
        \<and> get_prop meta ''fetchedAt'' = JNum t \<and> t \<noteq> 0
        \<and> get_prop meta ''contentType'' = JStr ct
        \<and> startsWith (toLowerCase ct) ''image/''
        \<and> now - t \<le> screenshotTtlMs cfg
        \<longrightarrow> readCacheEntry JP SN cfg now fs key
            = Inr (Some \<lparr>contentType = JStr ct, body = bin\<rparr>))"
proof (intro conjI impI)
  show "\<exists>r. readCacheEntry JP SN cfg now fs key = Inr r"
    by (rule readCacheEntry_never_throws)
next
  assume "fs (metaPath (pathsForKey cfg key)) = None \<or> fs (binPath (pathsForKey cfg key)) = None"
  then show "readCacheEntry JP SN cfg now fs key = Inr None"
    by (rule readCacheEntry_unreadable)
next
  assume "fs (metaPath (pathsForKey cfg key)) = Some raw \<and> JP raw = Inl e"
  then show "readCacheEntry JP SN cfg now fs key = Inr None"
    by (elim conjE) (rule readCacheEntry_unparsable)
next
  assume "fs (metaPath (pathsForKey cfg key)) = Some raw \<and> JP raw = Inr meta
        \<and> (\<not> truthy (get_prop meta ''fetchedAt'') \<or> \<not> truthy (get_prop meta ''contentType''))"
  then show "readCacheEntry JP SN cfg now fs key = Inr None"
    by (elim conjE) (rule readCacheEntry_missing_field)
next
  assume "fs (metaPath (pathsForKey cfg key)) = Some raw \<and> JP raw = Inr meta
        \<and> js_String (get_prop meta ''contentType'') = Inr ct
        \<and> \<not> startsWith (toLowerCase ct) ''image/''"
  then show "readCacheEntry JP SN cfg now fs key = Inr None"
    by (elim conjE) (rule readCacheEntry_not_image)
next
  assume "fs (metaPath (pathsForKey cfg key)) = Some raw \<and> JP raw = Inr meta
        \<and> js_Number SN (get_prop meta ''fetchedAt'') = Inr (Num t)
        \<and> now - t > screenshotTtlMs cfg"
  then show "readCacheEntry JP SN cfg now fs key = Inr None"
    by (elim conjE) (rule readCacheEntry_expired)
next
  assume a: "fs (metaPath (pathsForKey cfg key)) = Some raw
        \<and> fs (binPath (pathsForKey cfg key)) = Some bin \<and> JP raw = Inr meta
        \<and> get_prop meta ''fetchedAt'' = JNum t \<and> t \<noteq> 0
        \<and> get_prop meta ''contentType'' = JStr ct
        \<and> startsWith (toLowerCase ct) ''image/''
        \<and> now - t \<le> screenshotTtlMs cfg"
  then have "readCacheEntry JP SN cfg now fs key
         = Inr (if now - t \<le> screenshotTtlMs cfg
                then Some \<lparr>contentType = JStr ct, body = bin\<rparr> else None)"
    by (elim conjE) (rule readCacheEntry_valid)
  with a show "readCacheEntry JP SN cfg now fs key = Inr (Some \<lparr>contentType = JStr ct, body = bin\<rparr>)"
    by simp
qed

theorem readCacheEntry_fails_soft_witness:
  "readCacheEntry example_JSON_parse example_StringToNumber example_config 604801000
      (example_fs example_meta_png) ''ab12''
     = Inr (Some \<lparr>contentType = JStr ''image/png'', body = ''PNG-bytes''\<rparr>)
   \<and> readCacheEntry example_JSON_parse example_StringToNumber example_config 604801001
      (example_fs example_meta_png) ''ab12'' = Inr None
   \<and> readCacheEntry example_JSON_parse example_StringToNumber example_config 2000
      (example_fs example_meta_html) ''ab12'' = Inr None
   \<and> readCacheEntry example_JSON_parse example_StringToNumber example_config 2000
      (example_fs example_meta_undated) ''ab12'' = Inr None
   \<and> readCacheEntry example_JSON_parse example_StringToNumber example_config 2000
      (example_fs ''junk'') ''ab12'' = Inr None
   \<and> readCacheEntry example_JSON_parse example_StringToNumber example_config 2000
      (example_fs example_meta_png) ''ffff'' = Inr None"
proof -
  note th = readCacheEntry_fails_soft [where JP = example_JSON_parse
      and SN = example_StringToNumber and cfg = example_config]
  have fresh: "readCacheEntry example_JSON_parse example_StringToNumber example_config 604801000
      (example_fs example_meta_png) ''ab12''
     = Inr (Some \<lparr>contentType = JStr ''image/png'', body = ''PNG-bytes''\<rparr>)"
    using th [where now = 604801000 and fs = "example_fs example_meta_png" and key = "''ab12''"
        and raw = example_meta_png and t = 1000 and ct = "''image/png''" and bin = "''PNG-bytes''"
        and meta = "JObj [(''contentType'', JStr ''image/png''), (''fetchedAt'', JNum 1000)]"]
      example_paths example_parses example_ttls example_types
    by simp
  have expired: "readCacheEntry example_JSON_parse example_StringToNumber example_config 604801001
      (example_fs example_meta_png) ''ab12'' = Inr None"
    using th [where now = 604801001 and fs = "example_fs example_meta_png" and key = "''ab12''"
        and raw = example_meta_png and t = 1000 and ct = "''image/png''" and bin = "''PNG-bytes''"
        and meta = "JObj [(''contentType'', JStr ''image/png''), (''fetchedAt'', JNum 1000)]"]
      example_paths example_parses example_ttls example_types
    by simp
  have html: "readCacheEntry example_JSON_parse example_StringToNumber example_config 2000
      (example_fs example_meta_html) ''ab12'' = Inr None"
    using th [where now = 2000 and fs = "example_fs example_meta_html" and key = "''ab12''"
        and raw = example_meta_html and t = 1000 and ct = "''text/html''" and bin = "''PNG-bytes''"
        and meta = "JObj [(''contentType'', JStr ''text/html''), (''fetchedAt'', JNum 1000)]"]
      example_paths example_parses example_ttls example_types
    by simp
  have undated: "readCacheEntry example_JSON_parse example_StringToNumber example_config 2000
      (example_fs example_meta_undated) ''ab12'' = Inr None"
    using th [where now = 2000 and fs = "example_fs example_meta_undated" and key = "''ab12''"
        and raw = example_meta_undated and meta = "JObj [(''contentType'', JStr ''image/png'')]"]
      example_paths example_parses
    by simp
  have junk: "readCacheEntry example_JSON_parse example_StringToNumber example_config 2000
      (example_fs ''junk'') ''ab12'' = Inr None"
    using th [where now = 2000 and fs = "example_fs ''junk''" and key = "''ab12''"
        and raw = "''junk''" and e = "''Unexpected token''"]
      example_paths example_parses
    by simp
  have absent: "readCacheEntry example_JSON_parse example_StringToNumber example_config 2000
      (example_fs example_meta_png) ''ffff'' = Inr None"
    using th [where now = 2000 and fs = "example_fs example_meta_png" and key = "''ffff''"]
      example_paths
    by simp
  show ?thesis
    using fresh expired html undated junk absent by (intro conjI)
qed

text \<open>
  C3, as the code has it. A well-formed screenshot entry is returned exactly when
  \<open>now - fetchedAt \<le> ttl\<close>, so an entry of age exactly the TTL is still served. The
  dataset cache is fresh exactly when it holds a payload, \<open>fetchedAt\<close> is not 0 and
  \<open>now - fetchedAt < ttl\<close>, so a snapshot of age exactly the TTL is already stale.
\<close>

theorem cache_freshness:
  "(fs (metaPath (pathsForKey cfg key)) = Some raw
      \<and> fs (binPath (pathsForKey cfg key)) = Some bin \<and> JP raw = Inr meta
      \<and> get_prop meta ''fetchedAt'' = JNum t \<and> t \<noteq> 0
      \<and> get_prop meta ''contentType'' = JStr ct
      \<and> startsWith (toLowerCase ct) ''image/''
      \<longrightarrow> (readCacheEntry JP SN cfg now fs key = Inr (Some \<lparr>contentType = JStr ct, body = bin\<rparr>))
            = (now - t \<le> screenshotTtlMs cfg)
          \<and> (readCacheEntry JP SN cfg now fs key = Inr None) = (screenshotTtlMs cfg < now - t))
   \<and> isFreshCache cfg now c
       = (payload c \<noteq> None \<and> fetchedAt c \<noteq> 0 \<and> now - fetchedAt c < shopsCacheTtlMs cfg)
   \<and> (now - fetchedAt c = shopsCacheTtlMs cfg \<longrightarrow> \<not> isFreshCache cfg now c)"
proof (intro conjI impI)
  assume a: "fs (metaPath (pathsForKey cfg key)) = Some raw
      \<and> fs (binPath (pathsForKey cfg key)) = Some bin \<and> JP raw = Inr meta
      \<and> get_prop meta ''fetchedAt'' = JNum t \<and> t \<noteq> 0
      \<and> get_prop meta ''contentType'' = JStr ct
      \<and> startsWith (toLowerCase ct) ''image/''"
  then have r: "readCacheEntry JP SN cfg now fs key
         = Inr (if now - t \<le> screenshotTtlMs cfg
                then Some \<lparr>contentType = JStr ct, body = bin\<rparr> else None)"
    by (elim conjE) (rule readCacheEntry_valid)
  show "(readCacheEntry JP SN cfg now fs key = Inr (Some \<lparr>contentType = JStr ct, body = bin\<rparr>))
            = (now - t \<le> screenshotTtlMs cfg)"
    by (simp add: r)
  show "(readCacheEntry JP SN cfg now fs key = Inr None) = (screenshotTtlMs cfg < now - t)"
    by (auto simp: r)
next
  show "isFreshCache cfg now c
       = (payload c \<noteq> None \<and> fetchedAt c \<noteq> 0 \<and> now - fetchedAt c < shopsCacheTtlMs cfg)"
    by (rule isFreshCache_iff)
next
  assume "now - fetchedAt c = shopsCacheTtlMs cfg"
  then show "\<not> isFreshCache cfg now c" by (simp add: isFreshCache_iff)
qed

text \<open>
  C3 as stated fails for the dataset cache: a snapshot fetched at 1000 with a TTL of
  300000 ms has age equal to the TTL at 301000 and is not fresh.
\<close>

theorem dataset_cache_stale_at_ttl:
  "payload example_cache \<noteq> None \<and> fetchedAt example_cache \<noteq> 0
   \<and> 301000 - fetchedAt example_cache \<le> shopsCacheTtlMs example_config
   \<and> \<not> isFreshCache example_config 301000 example_cache"
  by (simp add: isFreshCache_def example_cache_def example_ttls)

theorem cache_freshness_witness:
  "readCacheEntry example_JSON_parse example_StringToNumber example_config 604801000
      (example_fs example_meta_png) ''ab12''
     = Inr (Some \<lparr>contentType = JStr ''image/png'', body = ''PNG-bytes''\<rparr>)
   \<and> 604801000 - 1000 = screenshotTtlMs example_config
   \<and> readCacheEntry example_JSON_parse example_StringToNumber example_config 604801001
      (example_fs example_meta_png) ''ab12'' = Inr None
   \<and> 301000 - fetchedAt example_cache = shopsCacheTtlMs example_config
   \<and> \<not> isFreshCache example_config 301000 example_cache
   \<and> isFreshCache example_config 300999 example_cache"
proof -
  note th = cache_freshness [where JP = example_JSON_parse
      and SN = example_StringToNumber and cfg = example_config and c = example_cache
      and fs = "example_fs example_meta_png" and key = "''ab12''"
      and raw = example_meta_png and t = 1000 and ct = "''image/png''" and bin = "''PNG-bytes''"
      and meta = "JObj [(''contentType'', JStr ''image/png''), (''fetchedAt'', JNum 1000)]"]
  have c: "payload example_cache \<noteq> None" "fetchedAt example_cache = 1000"
    by (simp_all add: example_cache_def)
  have "readCacheEntry example_JSON_parse example_StringToNumber example_config 604801000
      (example_fs example_meta_png) ''ab12''
     = Inr (Some \<lparr>contentType = JStr ''image/png'', body = ''PNG-bytes''\<rparr>)"
    using th [where now = 604801000] example_paths example_parses example_ttls example_types
    by simp
  moreover have "readCacheEntry example_JSON_parse example_StringToNumber example_config 604801001
      (example_fs example_meta_png) ''ab12'' = Inr None"
    using th [where now = 604801001] example_paths example_parses example_ttls example_types
    by simp
  moreover have "\<not> isFreshCache example_config 301000 example_cache"
    using th [where now = 301000] c example_ttls by simp
  moreover have "isFreshCache example_config 300999 example_cache"
    using th [where now = 300999] c example_ttls by simp
  ultimately show ?thesis
    using c example_ttls by simp
qed

subsection \<open>Fetching a screenshot\<close>

lemma provider_loop_rejected:
  "(\<And>p r. p \<in> set ps \<Longrightarrow> try_provider fetch u p \<noteq> Accept r)
   \<Longrightarrow> provider_loop fetch u e ps = Inl (last (e # rejection_reasons fetch u ps))"
proof (induction ps arbitrary: e)
  case Nil
  then show ?case by (simp add: rejection_reasons_def)
next
  case (Cons p ps)
  have tail: "provider_loop fetch u e' ps = Inl (last (e' # rejection_reasons fetch u ps))" for e'
    using Cons by simp
  show ?case
  proof (cases "try_provider fetch u p")
    case Skip
    then show ?thesis using tail [of e] by (simp add: rejection_reasons_def)
  next
    case (Reject m)
    then show ?thesis using tail [of m] by (simp add: rejection_reasons_def)
  next
    case (Accept r)
    then show ?thesis using Cons.prems [of p r] by simp
  qed
qed

lemma try_provider_reasons:
  "(p u \<noteq> [] \<and> fetch (p u) = Rejects msg \<longrightarrow> try_provider fetch u p = Reject msg)
   \<and> (p u \<noteq> [] \<and> fetch (p u) = Resolves r \<and> \<not> response_ok r \<longrightarrow>
        try_provider fetch u p = Reject (''Provider failed ('' @ show_nat (status r) @ '').''))
   \<and> (p u \<noteq> [] \<and> fetch (p u) = Resolves r \<and> response_ok r
        \<and> \<not> startsWith (toLowerCase (headerOrDefault r)) ''image/'' \<longrightarrow>
        try_provider fetch u p
          = Reject (''Provider returned non-image content ('' @ headerOrDefault r @ '').''))
   \<and> (p u \<noteq> [] \<and> fetch (p u) = Resolves r \<and> response_ok r
        \<and> startsWith (toLowerCase (headerOrDefault r)) ''image/'' \<and> arrayBuffer r = Inl msg \<longrightarrow>
        try_provider fetch u p = Reject msg)
   \<and> (p u \<noteq> [] \<and> fetch (p u) = Resolves r \<and> response_ok r
        \<and> startsWith (toLowerCase (headerOrDefault r)) ''image/'' \<and> arrayBuffer r = Inr [] \<longrightarrow>
        try_provider fetch u p = Reject ''Provider returned an empty image.'')
   \<and> (p u = [] \<longrightarrow> try_provider fetch u p = Skip)"
  by (simp add: try_provider_def Let_def)

lemma example_attempts:
  "try_provider example_fetch_down ''https://acme.test/'' thumProvider
     = Reject ''Provider failed (502).''"
  "try_provider example_fetch_down ''https://acme.test/'' example_backup_provider
     = Reject ''getaddrinfo ENOTFOUND backup.test''"
  by code_simp+

text \<open>
  C5, as the code has it. When no provider yields an image, \<open>fetchScreenshotBuffer\<close>
  throws an error whose message is the reason of the last rejected attempt if there was
  one, and the placeholder \<open>Unknown screenshot error.\<close> if there was none, as with an
  empty provider list. The reasons are: the message of a network exception, the status
  of a non-success response, the content type of a non-image response, and the empty
  body.
\<close>

theorem fetchScreenshotBuffer_last_rejection:
  "((\<forall>p\<in>set providers. \<forall>r. try_provider fetch u p \<noteq> Accept r) \<longrightarrow>
      fetchScreenshotBuffer fetch providers u
        = Inl (last (''Unknown screenshot error.'' # rejection_reasons fetch u providers)))
   \<and> ((\<forall>p\<in>set providers. \<forall>r. try_provider fetch u p \<noteq> Accept r)
        \<and> rejection_reasons fetch u providers \<noteq> [] \<longrightarrow>
      fetchScreenshotBuffer fetch providers u = Inl (last (rejection_reasons fetch u providers)))
   \<and> ((\<forall>p\<in>set providers. \<forall>r. try_provider fetch u p \<noteq> Accept r)
        \<and> try_provider fetch u q = Reject m \<longrightarrow>
      fetchScreenshotBuffer fetch (providers @ [q]) u = Inl m)
   \<and> fetchScreenshotBuffer fetch [] u = Inl ''Unknown screenshot error.''
   \<and> (q u \<noteq> [] \<and> fetch (q u) = Rejects msg \<longrightarrow> try_provider fetch u q = Reject msg)
   \<and> (q u \<noteq> [] \<and> fetch (q u) = Resolves r \<and> \<not> response_ok r \<longrightarrow>
        try_provider fetch u q = Reject (''Provider failed ('' @ show_nat (status r) @ '').''))
   \<and> (q u \<noteq> [] \<and> fetch (q u) = Resolves r \<and> response_ok r
        \<and> \<not> startsWith (toLowerCase (headerOrDefault r)) ''image/'' \<longrightarrow>
        try_provider fetch u q
          = Reject (''Provider returned non-image content ('' @ headerOrDefault r @ '').''))
   \<and> (q u \<noteq> [] \<and> fetch (q u) = Resolves r \<and> response_ok r
        \<and> startsWith (toLowerCase (headerOrDefault r)) ''image/'' \<and> arrayBuffer r = Inl msg \<longrightarrow>
        try_provider fetch u q = Reject msg)
   \<and> (q u \<noteq> [] \<and> fetch (q u) = Resolves r \<and> response_ok r
        \<and> startsWith (toLowerCase (headerOrDefault r)) ''image/'' \<and> arrayBuffer r = Inr [] \<longrightarrow>
        try_provider fetch u q = Reject ''Provider returned an empty image.'')
   \<and> (q u = [] \<longrightarrow> try_provider fetch u q = Skip)"
proof -
  have all: "fetchScreenshotBuffer fetch ps u
        = Inl (last (''Unknown screenshot error.'' # rejection_reasons fetch u ps))"
    if "\<forall>p\<in>set ps. \<forall>r. try_provider fetch u p \<noteq> Accept r" for ps
    unfolding fetchScreenshotBuffer_def using that by (intro provider_loop_rejected) blast
  have some: "fetchScreenshotBuffer fetch providers u = Inl (last (rejection_reasons fetch u providers))"
    if "\<forall>p\<in>set providers. \<forall>r. try_provider fetch u p \<noteq> Accept r"
      and "rejection_reasons fetch u providers \<noteq> []"
    using all [OF that(1)] that(2) by simp
  have snoc: "fetchScreenshotBuffer fetch (providers @ [q]) u = Inl m"
    if "\<forall>p\<in>set providers. \<forall>r. try_provider fetch u p \<noteq> Accept r"
      and "try_provider fetch u q = Reject m"
  proof -
    have "\<forall>p\<in>set (providers @ [q]). \<forall>r. try_provider fetch u p \<noteq> Accept r"
      using that by auto
    from all [OF this] show ?thesis
      using that(2) by (simp add: rejection_reasons_def)
  qed
  have nil: "fetchScreenshotBuffer fetch [] u = Inl ''Unknown screenshot error.''"
    by (simp add: fetchScreenshotBuffer_def)
  have a1: "(\<forall>p\<in>set providers. \<forall>r. try_provider fetch u p \<noteq> Accept r) \<longrightarrow>
      fetchScreenshotBuffer fetch providers u
        = Inl (last (''Unknown screenshot error.'' # rejection_reasons fetch u providers))"
    using all [of providers] by (rule impI)
  have a2: "(\<forall>p\<in>set providers. \<forall>r. try_provider fetch u p \<noteq> Accept r)
        \<and> rejection_reasons fetch u providers \<noteq> [] \<longrightarrow>
      fetchScreenshotBuffer fetch providers u = Inl (last (rejection_reasons fetch u providers))"
    using some by (intro impI) (elim conjE)
  have a3: "(\<forall>p\<in>set providers. \<forall>r. try_provider fetch u p \<noteq> Accept r)
        \<and> try_provider fetch u q = Reject m \<longrightarrow>
      fetchScreenshotBuffer fetch (providers @ [q]) u = Inl m"
    using snoc by (intro impI) (elim conjE)
  from a1 a2 a3 nil try_provider_reasons [of q u fetch msg r] show ?thesis
    by (intro conjI) (elim conjE, assumption)+
qed

text \<open>
  C5 as stated fails for the empty provider list: nothing was rejected and the message
  is the placeholder.
\<close>

theorem empty_provider_list_generic_error:
  "rejection_reasons example_fetch_down ''https://acme.test/'' [] = []
   \<and> fetchScreenshotBuffer example_fetch_down [] ''https://acme.test/''
       = Inl ''Unknown screenshot error.''"
  by (simp add: rejection_reasons_def fetchScreenshotBuffer_def)

theorem fetchScreenshotBuffer_last_rejection_witness:
  "fetchScreenshotBuffer example_fetch_down screenshotProviders ''https://acme.test/''
     = Inl ''Provider failed (502).''
   \<and> fetchScreenshotBuffer example_fetch_down (screenshotProviders @ [example_backup_provider])
        ''https://acme.test/''
     = Inl ''getaddrinfo ENOTFOUND backup.test''"
proof -
  note th = fetchScreenshotBuffer_last_rejection [where fetch = example_fetch_down
      and u = "''https://acme.test/''" and providers = screenshotProviders
      and q = example_backup_provider and m = "''getaddrinfo ENOTFOUND backup.test''"]
  have none: "\<forall>p\<in>set screenshotProviders. \<forall>r.
      try_provider example_fetch_down ''https://acme.test/'' p \<noteq> Accept r"
    by (simp add: screenshotProviders_def example_attempts)
  have reasons: "rejection_reasons example_fetch_down ''https://acme.test/'' screenshotProviders
      = [''Provider failed (502).'']"
    by (simp add: rejection_reasons_def screenshotProviders_def example_attempts)
  from th none reasons example_attempts(2) show ?thesis
    by simp
qed

subsection \<open>Building the payload\<close>

lemma fold_set_add:
  "distinct acc \<Longrightarrow> distinct (fold set_add xs acc) \<and> set (fold set_add xs acc) = set acc \<union> set xs"
  by (induction xs arbitrary: acc) (auto simp: set_add_def)

lemma distinct_array_from_set: "distinct (array_from_set xs)"
  using fold_set_add [of "[]" xs] by (simp add: array_from_set_def)

lemma set_array_from_set: "set (array_from_set xs) = set xs"
  using fold_set_add [of "[]" xs] by (simp add: array_from_set_def)

lemma distinct_js_sort: "distinct (js_sort c xs) = distinct xs"
  using mset_js_sort [of c xs] by (rule mset_eq_imp_distinct_iff)

lemma trim_not_blank: "trim s \<noteq> [] \<Longrightarrow> \<not> list_all isWhiteSpace (trim s)"
proof -
  assume ne: "trim s \<noteq> []"
  define r where "r = dropWhile isWhiteSpace (rev (trimStart s))"
  have t: "trim s = rev r" by (simp add: trim_def trimEnd_def r_def)
  with ne have "r \<noteq> []" by simp
  then have "\<not> isWhiteSpace (hd r)" unfolding r_def by (rule hd_dropWhile)
  moreover have "hd r \<in> set (trim s)" using \<open>r \<noteq> []\<close> t by simp
  ultimately show ?thesis by (auto simp: list_all_iff)
qed

lemma sorted_unique_list:
  assumes "consistent_on UNIV lc"
  shows "distinct (js_sort lc (array_from_set xs))"
    and "sorted_wrt (\<lambda>a b. lc a b \<le> 0) (js_sort lc (array_from_set xs))"
    and "set (js_sort lc (array_from_set xs)) = set xs"
  using sorted_js_sort [OF assms, of "array_from_set xs"]
  by (simp_all add: distinct_js_sort distinct_array_from_set set_js_sort set_array_from_set)

lemma example_build:
  "buildShopsPayload codeUnitCompare example_config (Inr example_notion) = Inr example_built"
  by code_simp

text \<open>
  C10. With a consistent \<open>localeCompare\<close>, \<open>buildShopsPayload\<close> succeeds whenever the
  database query does, and in its payload \<open>count\<close> is the number of shops, one per item
  returned; \<open>categories\<close> and \<open>tags\<close> have no duplicates, hold no empty and no
  all-whitespace string, are in ascending order of \<open>localeCompare\<close>, and hold exactly the
  non-empty trimmed categories and tags of the shops; and every shop's \<open>screenshot\<close> is
  \<open>/api/screenshot?u=\<close> followed by its URL-encoded \<open>url\<close> and \<open>&sv=v3\<close>.
\<close>

theorem buildShopsPayload_invariants:
  "consistent_on UNIV lc \<longrightarrow>
     (\<exists>p. buildShopsPayload lc cfg (Inr d) = Inr p)
     \<and> (buildShopsPayload lc cfg (Inr d) = Inr p \<longrightarrow>
          shops_payload.count p = length (shops p)
          \<and> length (shops p) = length (items d)
          \<and> distinct (categories p) \<and> distinct (shops_payload.tags p)
          \<and> (\<forall>t\<in>set (categories p) \<union> set (shops_payload.tags p).
                t \<noteq> [] \<and> \<not> list_all isWhiteSpace t)
          \<and> sorted_wrt (\<lambda>a b. lc a b \<le> 0) (categories p)
          \<and> sorted_wrt (\<lambda>a b. lc a b \<le> 0) (shops_payload.tags p)
          \<and> set (categories p) = (\<lambda>s. trim (category s)) ` set (items d) - {[]}
          \<and> set (shops_payload.tags p)
              = trim ` (\<Union>s\<in>set (items d). set (shop_item.tags s)) - {[]}
          \<and> (\<forall>s\<in>set (shops p).
                screenshot s
                  = ''/api/screenshot?u='' @ encodeURIComponent (url s) @ ''&sv='' @ screenshotVersion)
          \<and> screenshotVersion = ''v3'')"
proof (intro impI conjI)
  show "\<exists>p. buildShopsPayload lc cfg (Inr d) = Inr p"
    by (simp add: buildShopsPayload_def Let_def)
next
  assume lc: "consistent_on UNIV lc" and p: "buildShopsPayload lc cfg (Inr d) = Inr p"
  define payload where "payload = map with_screenshot (items d)"
  define ts where "ts = filter (\<lambda>tag. tag \<noteq> []) (map trim (concat (map shop_item.tags payload)))"
  define cs where "cs = filter (\<lambda>c. c \<noteq> []) (map (\<lambda>shop. trim (category shop)) payload)"
  have sh: "shops p = payload"
    and ca: "categories p = js_sort lc (array_from_set cs)"
    and ta: "shops_payload.tags p = js_sort lc (array_from_set ts)"
    and co: "shops_payload.count p = length payload"
    using p by (auto simp: buildShopsPayload_def Let_def payload_def ts_def cs_def)
  show "shops_payload.count p = length (shops p)" by (simp add: sh co)
  show "length (shops p) = length (items d)" by (simp add: sh payload_def)
  show "distinct (categories p)" unfolding ca by (rule sorted_unique_list [OF lc])
  show "distinct (shops_payload.tags p)" unfolding ta by (rule sorted_unique_list [OF lc])
  show "sorted_wrt (\<lambda>a b. lc a b \<le> 0) (categories p)"
    unfolding ca by (rule sorted_unique_list [OF lc])
  show "sorted_wrt (\<lambda>a b. lc a b \<le> 0) (shops_payload.tags p)"
    unfolding ta by (rule sorted_unique_list [OF lc])
  have set_c: "set (categories p) = set cs" unfolding ca by (rule sorted_unique_list [OF lc])
  have set_t: "set (shops_payload.tags p) = set ts" unfolding ta by (rule sorted_unique_list [OF lc])
  show "set (categories p) = (\<lambda>s. trim (category s)) ` set (items d) - {[]}"
    unfolding set_c cs_def payload_def by (auto simp: with_screenshot_def)
  show "set (shops_payload.tags p) = trim ` (\<Union>s\<in>set (items d). set (shop_item.tags s)) - {[]}"
    unfolding set_t ts_def payload_def by (auto simp: with_screenshot_def)
  show "\<forall>t\<in>set (categories p) \<union> set (shops_payload.tags p). t \<noteq> [] \<and> \<not> list_all isWhiteSpace t"
  proof
    fix t assume "t \<in> set (categories p) \<union> set (shops_payload.tags p)"
    then have "t \<in> set cs \<union> set ts" by (simp add: set_c set_t)
    then obtain x where "t = trim x" "t \<noteq> []" by (auto simp: cs_def ts_def)
    then show "t \<noteq> [] \<and> \<not> list_all isWhiteSpace t" using trim_not_blank [of x] by simp
  qed
  show "\<forall>s\<in>set (shops p).
      screenshot s = ''/api/screenshot?u='' @ encodeURIComponent (url s) @ ''&sv='' @ screenshotVersion"
    by (auto simp: sh payload_def with_screenshot_def)
  show "screenshotVersion = ''v3''" by (simp add: screenshotVersion_def)
qed

theorem buildShopsPayload_invariants_witness:
  "consistent_on UNIV codeUnitCompare
   \<and> buildShopsPayload codeUnitCompare example_config (Inr example_notion) = Inr example_built
   \<and> shops_payload.count example_built = length (shops example_built)
   \<and> distinct (categories example_built) \<and> distinct (shops_payload.tags example_built)
   \<and> sorted_wrt (\<lambda>a b. codeUnitCompare a b \<le> 0) (categories example_built)
   \<and> sorted_wrt (\<lambda>a b. codeUnitCompare a b \<le> 0) (shops_payload.tags example_built)
   \<and> categories example_built = [''Bags'', ''Food'']
   \<and> shops_payload.tags example_built = [''graphics'', ''minimalism'', ''typography'']"
proof -
  have c: "consistent_on UNIV codeUnitCompare"
    by (rule consistent_codeUnitCompare)
  have "shops_payload.count example_built = length (shops example_built)
   \<and> distinct (categories example_built) \<and> distinct (shops_payload.tags example_built)
   \<and> sorted_wrt (\<lambda>a b. codeUnitCompare a b \<le> 0) (categories example_built)
   \<and> sorted_wrt (\<lambda>a b. codeUnitCompare a b \<le> 0) (shops_payload.tags example_built)"
    using buildShopsPayload_invariants [of codeUnitCompare example_config example_notion example_built]
      c example_build
    by blast
  moreover have "categories example_built = [''Bags'', ''Food'']"
    "shops_payload.tags example_built = [''graphics'', ''minimalism'', ''typography'']"
    by (simp_all add: example_built_def)
  ultimately show ?thesis
    using c example_build by blast
qed

subsection \<open>The dataset cache\<close>

lemma isFreshCache_inflight [simp]:
  "isFreshCache cfg now (c\<lparr>inflight := x\<rparr>) = isFreshCache cfg now c"
  by (simp add: isFreshCache_def)

lemma getShopsPayload_join:
  "\<not> isFreshCache cfg now (cache s) \<Longrightarrow> inflight (cache s) = Some promise
   \<Longrightarrow> getShopsPayload cfg now s = (Awaits promise ''memory-inflight'', s)"
  by (simp add: getShopsPayload_def split: bool.splits option.splits)

lemma getShopsPayload_start:
  "\<not> isFreshCache cfg now (cache s) \<Longrightarrow> inflight (cache s) = None
   \<Longrightarrow> getShopsPayload cfg now s
       = (Awaits (started s) ''notion-refresh'',
          s\<lparr>cache := (cache s)\<lparr>inflight := Some (started s)\<rparr>, started := started s + 1\<rparr>)"
  by (simp add: getShopsPayload_def split: bool.splits option.splits)

lemma getShopsPayload_fresh:
  "isFreshCache cfg now (cache s) \<Longrightarrow>
   \<exists>p. payload (cache s) = Some p \<and> getShopsPayload cfg now s = (Returned p ''memory-fresh'', s)"
  by (auto simp: getShopsPayload_def isFreshCache_def split: if_splits)

lemma arrivals_join:
  "inflight (cache s) = Some promise \<Longrightarrow> \<forall>t\<in>set ts. \<not> isFreshCache cfg t (cache s)
   \<Longrightarrow> arrivals cfg ts s = (map (\<lambda>t. Awaits promise ''memory-inflight'') ts, s)"
  by (induction ts) (simp_all add: getShopsPayload_join)

lemma arrivals_start:
  assumes "inflight (cache s) = None" "\<forall>t\<in>set (now # later). \<not> isFreshCache cfg t (cache s)"
  shows "arrivals cfg (now # later) s
         = (Awaits (started s) ''notion-refresh''
              # map (\<lambda>t. Awaits (started s) ''memory-inflight'') later,
            s\<lparr>cache := (cache s)\<lparr>inflight := Some (started s)\<rparr>, started := started s + 1\<rparr>)"
proof -
  let ?s1 = "s\<lparr>cache := (cache s)\<lparr>inflight := Some (started s)\<rparr>, started := started s + 1\<rparr>"
  have "getShopsPayload cfg now s = (Awaits (started s) ''notion-refresh'', ?s1)"
    using assms by (simp add: getShopsPayload_start)
  moreover have "arrivals cfg later ?s1 = (map (\<lambda>t. Awaits (started s) ''memory-inflight'') later, ?s1)"
    using assms(2) by (intro arrivals_join) simp_all
  ultimately show ?thesis by simp
qed

lemma call_result_settled:
  "inflight (cache s) = Some promise \<Longrightarrow>
   call_result (settle_inflight outcome t s) (Awaits promise source)
     = Some (case outcome of Inl e \<Rightarrow> Inl e | Inr p \<Rightarrow> Inr (p, source))"
  by (simp add: call_result_def settle_inflight_def Let_def split: sum.splits)

lemma settle_failure:
  "inflight (cache s) = Some promise \<Longrightarrow>
   cache (settle_inflight (Inl e) t s) = (cache s)\<lparr>inflight := None\<rparr>
   \<and> started (settle_inflight (Inl e) t s) = started s"
  by (simp add: settle_inflight_def)

lemma settle_success:
  "inflight (cache s) = Some promise \<Longrightarrow>
   cache (settle_inflight (Inr p) t s) = (cache s)\<lparr>payload := Some p, fetchedAt := t, inflight := None\<rparr>
   \<and> started (settle_inflight (Inr p) t s) = started s"
  by (simp add: settle_inflight_def)

lemma example_cacheControl:
  "cacheControl example_config = ''public, s-maxage=60, stale-while-revalidate=300''"
  by code_simp

lemma example_server_simps:
  "cache (example_server c) = c" "started (example_server c) = 0"
  "payload example_cache = Some example_payload" "fetchedAt example_cache = 1000"
  "inflight example_cache = None"
  "payload empty_cache = None" "fetchedAt empty_cache = 0" "inflight empty_cache = None"
  by (simp_all add: example_server_def example_cache_def empty_cache_def)

lemma example_stale:
  "\<not> isFreshCache example_config 400000 example_cache"
  "\<not> isFreshCache example_config 400001 example_cache"
  "\<not> isFreshCache example_config 400002 example_cache"
  "\<not> isFreshCache example_config 400600 example_cache"
  "\<not> isFreshCache example_config t empty_cache"
  by (simp_all add: isFreshCache_def example_server_simps example_ttls)

text \<open>
  C1. Calls of \<open>getShopsPayload\<close> arrive one after the other while the cache is not
  fresh and before anything settles. If no fetch is in flight at the first call,
  \<open>buildShopsPayload\<close> is called exactly once, by the first call, and all later calls
  wait for the promise of that one fetch; if a fetch is already in flight, none is
  started and all calls wait for it. When the promise settles every waiting caller gets
  its outcome: the same payload (each with its own source tag) or the same error.
\<close>

theorem single_flight:
  "(inflight (cache s) = None \<and> (\<forall>t\<in>set (now # later). \<not> isFreshCache cfg t (cache s))
      \<and> arrivals cfg (now # later) s = (cs, s') \<longrightarrow>
        started s' = started s + 1
        \<and> inflight (cache s') = Some (started s)
        \<and> length cs = length (now # later)
        \<and> cs = Awaits (started s) ''notion-refresh''
                # map (\<lambda>t. Awaits (started s) ''memory-inflight'') later
        \<and> (\<forall>c\<in>set cs. call_result (settle_inflight (Inr p) t1 s') c = Some (Inr (p, call_source c)))
        \<and> (\<forall>c\<in>set cs. call_result (settle_inflight (Inl e) t1 s') c = Some (Inl e)))
   \<and> (inflight (cache s) = Some promise \<and> (\<forall>t\<in>set later. \<not> isFreshCache cfg t (cache s))
      \<and> arrivals cfg later s = (cs, s') \<longrightarrow>
        s' = s
        \<and> cs = map (\<lambda>t. Awaits promise ''memory-inflight'') later
        \<and> (\<forall>c\<in>set cs. call_result (settle_inflight (Inr p) t1 s') c = Some (Inr (p, call_source c)))
        \<and> (\<forall>c\<in>set cs. call_result (settle_inflight (Inl e) t1 s') c = Some (Inl e)))"
proof (intro conjI impI; elim conjE)
  assume idle: "inflight (cache s) = None"
    and stale: "\<forall>t\<in>set (now # later). \<not> isFreshCache cfg t (cache s)"
    and run: "arrivals cfg (now # later) s = (cs, s')"
  have cs: "cs = Awaits (started s) ''notion-refresh''
                # map (\<lambda>t. Awaits (started s) ''memory-inflight'') later"
    and s': "s' = s\<lparr>cache := (cache s)\<lparr>inflight := Some (started s)\<rparr>, started := started s + 1\<rparr>"
    using arrivals_start [OF idle stale] run by simp_all
  show "started s' = started s + 1" by (simp add: s')
  show fl: "inflight (cache s') = Some (started s)" by (simp add: s')
  show "length cs = length (now # later)" by (simp add: cs)
  show "cs = Awaits (started s) ''notion-refresh''
                # map (\<lambda>t. Awaits (started s) ''memory-inflight'') later" by (rule cs)
  show "\<forall>c\<in>set cs. call_result (settle_inflight (Inr p) t1 s') c = Some (Inr (p, call_source c))"
    using call_result_settled [OF fl, of "Inr p" t1] by (auto simp: cs call_source_def)
  show "\<forall>c\<in>set cs. call_result (settle_inflight (Inl e) t1 s') c = Some (Inl e)"
    using call_result_settled [OF fl, of "Inl e" t1] by (auto simp: cs)
next
  assume busy: "inflight (cache s) = Some promise"
    and stale: "\<forall>t\<in>set later. \<not> isFreshCache cfg t (cache s)"
    and run: "arrivals cfg later s = (cs, s')"
  have cs: "cs = map (\<lambda>t. Awaits promise ''memory-inflight'') later" and s': "s' = s"
    using arrivals_join [OF busy stale] run by simp_all
  show "s' = s" by (rule s')
  show "cs = map (\<lambda>t. Awaits promise ''memory-inflight'') later" by (rule cs)
  show "\<forall>c\<in>set cs. call_result (settle_inflight (Inr p) t1 s') c = Some (Inr (p, call_source c))"
    using call_result_settled [OF busy, of "Inr p" t1] by (auto simp: cs s' call_source_def)
  show "\<forall>c\<in>set cs. call_result (settle_inflight (Inl e) t1 s') c = Some (Inl e)"
    using call_result_settled [OF busy, of "Inl e" t1] by (auto simp: cs s')
qed

theorem single_flight_witness:
  "inflight (cache (example_server example_cache)) = None
   \<and> \<not> isFreshCache example_config 400000 (cache (example_server example_cache))
   \<and> fst (arrivals example_config [400000, 400001, 400002] (example_server example_cache))
       = [Awaits 0 ''notion-refresh'', Awaits 0 ''memory-inflight'', Awaits 0 ''memory-inflight'']
   \<and> started (snd (arrivals example_config [400000, 400001, 400002] (example_server example_cache))) = 1
   \<and> call_result
        (settle_inflight (Inr example_built) 400500
          (snd (arrivals example_config [400000, 400001, 400002] (example_server example_cache))))
        (Awaits 0 ''notion-refresh'')
       = Some (Inr (example_built, ''notion-refresh''))
   \<and> call_result
        (settle_inflight (Inr example_built) 400500
          (snd (arrivals example_config [400000, 400001, 400002] (example_server example_cache))))
        (Awaits 0 ''memory-inflight'')
       = Some (Inr (example_built, ''memory-inflight''))
   \<and> call_result
        (settle_inflight (Inl ''Notion is down'') 400500
          (snd (arrivals example_config [400000, 400001, 400002] (example_server example_cache))))
        (Awaits 0 ''memory-inflight'')
       = Some (Inl ''Notion is down'')
   \<and> arrivals example_config [400003]
        (snd (arrivals example_config [400000, 400001, 400002] (example_server example_cache)))
       = ([Awaits 0 ''memory-inflight''],
          snd (arrivals example_config [400000, 400001, 400002] (example_server example_cache)))"
proof -
  let ?s = "example_server example_cache"
  let ?r = "arrivals example_config [400000, 400001, 400002] ?s"
  let ?q = "arrivals example_config [400003] (snd ?r)"
  have idle: "inflight (cache ?s) = None" by (simp add: example_server_simps)
  have stale: "\<forall>t\<in>set [400000, 400001, 400002]. \<not> isFreshCache example_config t (cache ?s)"
    by (simp add: example_server_simps example_stale)
  have run: "?r = (fst ?r, snd ?r)" by simp
  note th = single_flight [where s = ?s and cfg = example_config and now = 400000
        and later = "[400001, 400002]" and cs = "fst ?r" and s' = "snd ?r"
        and p = example_built and ?t1.0 = 400500 and e = "''Notion is down''" and promise = 0]
  have first: "started (snd ?r) = started ?s + 1
        \<and> inflight (cache (snd ?r)) = Some (started ?s)
        \<and> length (fst ?r) = length [400000, 400001, 400002 :: int]
        \<and> fst ?r = Awaits (started ?s) ''notion-refresh''
                # map (\<lambda>t. Awaits (started ?s) ''memory-inflight'') [400001, 400002 :: int]
        \<and> (\<forall>c\<in>set (fst ?r). call_result (settle_inflight (Inr example_built) 400500 (snd ?r)) c
              = Some (Inr (example_built, call_source c)))
        \<and> (\<forall>c\<in>set (fst ?r). call_result (settle_inflight (Inl ''Notion is down'') 400500 (snd ?r)) c
              = Some (Inl ''Notion is down''))"
    by (rule mp [OF conjunct1 [OF th] conjI [OF idle conjI [OF stale run]]])
  have busy: "inflight (cache (snd ?r)) = Some 0"
    using first by (simp add: example_server_simps)
  have still: "\<forall>t\<in>set [400003]. \<not> isFreshCache example_config t (cache (snd ?r))"
    using arrivals_start [OF idle stale]
    by (simp add: isFreshCache_def example_server_simps example_ttls)
  have join: "?q = (fst ?q, snd ?q)" by simp
  note th2 = single_flight [where s = "snd ?r" and cfg = example_config and now = 400000
        and later = "[400003]" and cs = "fst ?q" and s' = "snd ?q"
        and p = example_built and ?t1.0 = 400500 and e = "''Notion is down''" and promise = 0]
  have second: "snd ?q = snd ?r
        \<and> fst ?q = map (\<lambda>t. Awaits 0 ''memory-inflight'') [400003 :: int]
        \<and> (\<forall>c\<in>set (fst ?q). call_result (settle_inflight (Inr example_built) 400500 (snd ?q)) c
              = Some (Inr (example_built, call_source c)))
        \<and> (\<forall>c\<in>set (fst ?q). call_result (settle_inflight (Inl ''Notion is down'') 400500 (snd ?q)) c
              = Some (Inl ''Notion is down''))"
    by (rule mp [OF conjunct2 [OF th2] conjI [OF busy conjI [OF still join]]])
  have q: "?q = ([Awaits 0 ''memory-inflight''], snd ?r)"
    using second by (simp add: prod_eq_iff)
  from first show ?thesis
    using idle example_stale(1) q
    by (elim conjE) (simp add: example_server_simps call_source_def)
qed

text \<open>
  C2. A request finds the cache stale or empty and starts a refresh, which fails. The
  cache keeps its payload and its \<open>fetchedAt\<close>, and \<open>inflight\<close> is cleared. If the cache
  held a payload, of whatever age, the response is 200 with that payload and the tag
  \<open>memory-stale-on-error\<close>; if it held none, the response is 500 with the error. The
  cache is no fresher than before, so the next call that finds it stale starts a new
  refresh.
\<close>

theorem stale_on_error:
  "inflight (cache s) = None \<and> \<not> isFreshCache cfg t0 (cache s)
     \<and> getShopsPayload cfg t0 s = (c, s1) \<and> s2 = settle_inflight (Inl e) t1 s1 \<longrightarrow>
       c = Awaits (started s) ''notion-refresh''
       \<and> call_result s2 c = Some (Inl e)
       \<and> payload (cache s2) = payload (cache s)
       \<and> fetchedAt (cache s2) = fetchedAt (cache s)
       \<and> inflight (cache s2) = None
       \<and> (\<forall>t2. isFreshCache cfg t2 (cache s2) = isFreshCache cfg t2 (cache s))
       \<and> (payload (cache s) = Some p \<longrightarrow>
            api_shops_response cfg s2 c
              = Some \<lparr>statusCode = 200,
                      headers = [(''cache-control'', cacheControl cfg),
                                 (''x-shops-cache'', ''memory-stale-on-error'')],
                      json = JsonPayload p\<rparr>)
       \<and> (payload (cache s) = None \<longrightarrow>
            api_shops_response cfg s2 c
              = Some \<lparr>statusCode = 500, headers = [],
                      json = JsonError ''Failed to load Notion database.'' e\<rparr>)
       \<and> (\<not> isFreshCache cfg t2 (cache s) \<longrightarrow>
            fst (getShopsPayload cfg t2 s2) = Awaits (started s2) ''notion-refresh''
            \<and> started (snd (getShopsPayload cfg t2 s2)) = started s2 + 1)"
proof (intro impI; elim conjE)
  assume idle: "inflight (cache s) = None"
    and stale: "\<not> isFreshCache cfg t0 (cache s)"
    and call: "getShopsPayload cfg t0 s = (c, s1)"
    and s2: "s2 = settle_inflight (Inl e) t1 s1"
  have c: "c = Awaits (started s) ''notion-refresh''"
    and s1: "s1 = s\<lparr>cache := (cache s)\<lparr>inflight := Some (started s)\<rparr>, started := started s + 1\<rparr>"
    using getShopsPayload_start [OF stale idle] call by simp_all
  have fl: "inflight (cache s1) = Some (started s)" by (simp add: s1)
  have res: "call_result s2 c = Some (Inl e)"
    using call_result_settled [OF fl, of "Inl e" t1] by (simp add: s2 c)
  have cache2: "cache s2 = (cache s)\<lparr>inflight := None\<rparr>"
    using settle_failure [OF fl, of e t1] by (simp add: s2 s1)
  have retry: "fst (getShopsPayload cfg t2 s2) = Awaits (started s2) ''notion-refresh''
            \<and> started (snd (getShopsPayload cfg t2 s2)) = started s2 + 1"
    if "\<not> isFreshCache cfg t2 (cache s)"
  proof -
    have "\<not> isFreshCache cfg t2 (cache s2)" "inflight (cache s2) = None"
      using that by (simp_all add: cache2)
    from getShopsPayload_start [OF this] show ?thesis by simp
  qed
  show "c = Awaits (started s) ''notion-refresh''
       \<and> call_result s2 c = Some (Inl e)
       \<and> payload (cache s2) = payload (cache s)
       \<and> fetchedAt (cache s2) = fetchedAt (cache s)
       \<and> inflight (cache s2) = None
       \<and> (\<forall>t2. isFreshCache cfg t2 (cache s2) = isFreshCache cfg t2 (cache s))
       \<and> (payload (cache s) = Some p \<longrightarrow>
            api_shops_response cfg s2 c
              = Some \<lparr>statusCode = 200,
                      headers = [(''cache-control'', cacheControl cfg),
                                 (''x-shops-cache'', ''memory-stale-on-error'')],
                      json = JsonPayload p\<rparr>)
       \<and> (payload (cache s) = None \<longrightarrow>
            api_shops_response cfg s2 c
              = Some \<lparr>statusCode = 500, headers = [],
                      json = JsonError ''Failed to load Notion database.'' e\<rparr>)
       \<and> (\<not> isFreshCache cfg t2 (cache s) \<longrightarrow>
            fst (getShopsPayload cfg t2 s2) = Awaits (started s2) ''notion-refresh''
            \<and> started (snd (getShopsPayload cfg t2 s2)) = started s2 + 1)"
    using c res retry by (simp add: cache2 api_shops_response_def api_shops_def)
qed

theorem stale_on_error_witness:
  "api_shops_response example_config
      (settle_inflight (Inl ''Notion is down'') 400500
        (snd (getShopsPayload example_config 400000 (example_server example_cache))))
      (fst (getShopsPayload example_config 400000 (example_server example_cache)))
     = Some \<lparr>statusCode = 200,
             headers = [(''cache-control'', ''public, s-maxage=60, stale-while-revalidate=300''),
                        (''x-shops-cache'', ''memory-stale-on-error'')],
             json = JsonPayload example_payload\<rparr>
   \<and> fetchedAt (cache (settle_inflight (Inl ''Notion is down'') 400500
        (snd (getShopsPayload example_config 400000 (example_server example_cache))))) = 1000
   \<and> fst (getShopsPayload example_config 400600
        (settle_inflight (Inl ''Notion is down'') 400500
          (snd (getShopsPayload example_config 400000 (example_server example_cache)))))
       = Awaits 1 ''notion-refresh''
   \<and> api_shops_response example_config
      (settle_inflight (Inl ''Notion is down'') 400500
        (snd (getShopsPayload example_config 400000 (example_server empty_cache))))
      (fst (getShopsPayload example_config 400000 (example_server empty_cache)))
     = Some \<lparr>statusCode = 500, headers = [],
             json = JsonError ''Failed to load Notion database.'' ''Notion is down''\<rparr>"
proof -
  let ?a = "getShopsPayload example_config 400000 (example_server example_cache)"
  let ?b = "getShopsPayload example_config 400000 (example_server empty_cache)"
  let ?sa = "settle_inflight (Inl ''Notion is down'') 400500 (snd ?a)"
  let ?sb = "settle_inflight (Inl ''Notion is down'') 400500 (snd ?b)"
  have a: "inflight (cache (example_server example_cache)) = None
      \<and> \<not> isFreshCache example_config 400000 (cache (example_server example_cache))
      \<and> ?a = (fst ?a, snd ?a) \<and> ?sa = ?sa"
    by (simp add: example_server_simps example_stale)
  have b: "inflight (cache (example_server empty_cache)) = None
      \<and> \<not> isFreshCache example_config 400000 (cache (example_server empty_cache))
      \<and> ?b = (fst ?b, snd ?b) \<and> ?sb = ?sb"
    by (simp add: example_server_simps example_stale)
  note ta = mp [OF stale_on_error [where s = "example_server example_cache" and cfg = example_config
        and ?t0.0 = 400000 and c = "fst ?a" and ?s1.0 = "snd ?a" and ?s2.0 = ?sa
        and e = "''Notion is down''" and ?t1.0 = 400500 and p = example_payload and ?t2.0 = 400600] a]
  note tb = mp [OF stale_on_error [where s = "example_server empty_cache" and cfg = example_config
        and ?t0.0 = 400000 and c = "fst ?b" and ?s1.0 = "snd ?b" and ?s2.0 = ?sb
        and e = "''Notion is down''" and ?t1.0 = 400500 and p = example_payload and ?t2.0 = 400600] b]
  have sa: "started ?sa = 1"
    by (simp add: getShopsPayload_start settle_failure example_stale example_server_simps)
  have r1: "api_shops_response example_config ?sa (fst ?a)
          = Some \<lparr>statusCode = 200,
                  headers = [(''cache-control'', cacheControl example_config),
                             (''x-shops-cache'', ''memory-stale-on-error'')],
                  json = JsonPayload example_payload\<rparr>"
    using ta by (elim conjE) (simp add: example_server_simps)
  have r2: "fetchedAt (cache ?sa) = 1000"
    using ta by (elim conjE) (simp add: example_server_simps)
  have r3: "fst (getShopsPayload example_config 400600 ?sa) = Awaits 1 ''notion-refresh''"
    using ta sa by (elim conjE) (simp add: example_server_simps example_stale)
  have r4: "api_shops_response example_config ?sb (fst ?b)
          = Some \<lparr>statusCode = 500, headers = [],
                  json = JsonError ''Failed to load Notion database.'' ''Notion is down''\<rparr>"
    using tb by (elim conjE) (simp add: example_server_simps)
  show ?thesis
    using r1 r2 r3 r4 by (simp add: example_cacheControl)
qed

section \<open>Properties of the image preloader\<close>

lemma preload_inv_start: "preload_inv (preloadImageWithFallback p f tm)"
  by (simp add: preload_inv_def preloadImageWithFallback_def)

lemma preload_inv_deliver: "preload_inv s \<Longrightarrow> preload_inv (deliver R ev s)"
  by (cases "(R, ev, s)" rule: deliver.cases)
     (auto simp: preload_inv_def onload_def onerror_def onTimeout_def finish_def resolve_def
        clearTimeout_def)

lemma preload_inv_fold: "preload_inv s \<Longrightarrow> preload_inv (fold (deliver R) evs s)"
  by (induction evs arbitrary: s) (simp_all add: preload_inv_deliver)

lemma settled_deliver: "settled s \<Longrightarrow> settled (deliver R ev s)"
  by (cases "(R, ev, s)" rule: deliver.cases)
     (auto simp: onload_def onerror_def onTimeout_def finish_def resolve_def clearTimeout_def)

lemma settled_fold: "settled s \<Longrightarrow> settled (fold (deliver R) evs s)"
  by (induction evs arbitrary: s) (simp_all add: settled_deliver)

lemma settled_after_timer: "preload_inv s \<Longrightarrow> settled (deliver R TimerFires s)"
  by (auto simp: preload_inv_def onTimeout_def finish_def resolve_def)

lemma settled_after_load: "settled (deliver R (ImageEvent Load) s)"
  by (auto simp: onload_def finish_def resolve_def clearTimeout_def)

lemma settled_trace:
  assumes "preload_inv s" "TimerFires \<in> set evs \<or> ImageEvent Load \<in> set evs"
  shows "settled (fold (deliver R) evs s)"
proof -
  from assms(2) obtain ev where "ev \<in> set evs" "ev = TimerFires \<or> ev = ImageEvent Load" by blast
  then obtain xs ys where evs: "evs = xs @ ev # ys" by (meson split_list)
  have "preload_inv (fold (deliver R) xs s)" using assms(1) by (rule preload_inv_fold)
  then have "settled (deliver R ev (fold (deliver R) xs s))"
    using \<open>ev = TimerFires \<or> ev = ImageEvent Load\<close> settled_after_timer settled_after_load by blast
  then show ?thesis by (simp add: evs settled_fold)
qed

lemma single_switch_start: "R f = f \<Longrightarrow> single_switch R (preloadImageWithFallback p f tm)"
  by (simp add: single_switch_def preloadImageWithFallback_def)

lemma single_switch_deliver: "single_switch R s \<Longrightarrow> single_switch R (deliver R ev s)"
  by (cases "(R, ev, s)" rule: deliver.cases)
     (auto simp: single_switch_def onload_def onerror_def onTimeout_def finish_def resolve_def
        clearTimeout_def)

lemma single_switch_fold: "single_switch R s \<Longrightarrow> single_switch R (fold (deliver R) evs s)"
  by (induction evs arbitrary: s) (simp_all add: single_switch_deliver)

lemma two_errors_settle:
  "R f = f \<Longrightarrow>
   settled (fold (deliver R) [ImageEvent Error, ImageEvent Error] (preloadImageWithFallback p f tm))"
  by (simp add: onerror_def finish_def resolve_def clearTimeout_def preloadImageWithFallback_def)

text \<open>
  When the fallback URL does not read back as assigned, an \<open>error\<close> event never takes the
  finishing branch: every one assigns \<open>img.src\<close> again and leaves the promise as it is.
\<close>

lemma errors_reassign:
  "fallbackUrl s \<noteq> [] \<Longrightarrow> R (src s) \<noteq> fallbackUrl s \<Longrightarrow> R (fallbackUrl s) \<noteq> fallbackUrl s
   \<Longrightarrow> set evs \<subseteq> {ImageEvent Error}
   \<Longrightarrow> promiseState (fold (deliver R) evs s) = promiseState s
       \<and> assignments (fold (deliver R) evs s) = assignments s + length evs"
proof (induction evs arbitrary: s)
  case Nil
  then show ?case by simp
next
  case (Cons ev evs)
  let ?s1 = "s\<lparr>src := fallbackUrl s, assignments := assignments s + 1\<rparr>"
  have ev: "ev = ImageEvent Error" using Cons.prems(4) by simp
  have step: "deliver R ev s = ?s1"
    using Cons.prems(1,2) by (simp add: ev onerror_def)
  have "promiseState (fold (deliver R) evs ?s1) = promiseState ?s1
       \<and> assignments (fold (deliver R) evs ?s1) = assignments ?s1 + length evs"
    using Cons.prems by (intro Cons.IH) simp_all
  then show ?case by (simp add: step)
qed

lemma finish_twice: "finish (finish s) = finish s"
  by (simp add: finish_def resolve_def)

lemma finish_settled: "settled s \<Longrightarrow> finish s = s"
  by (simp add: finish_def)

lemma timer_in_events: "max 0 tm \<le> T \<Longrightarrow> TimerFires \<in> set (events_until tm es T)"
  by (simp add: events_until_def)

lemma example_resolves:
  "example_resolveUrl example_fallback = example_fallback"
  "example_resolveUrl example_primary \<noteq> example_fallback_raw"
  "example_resolveUrl example_fallback_raw \<noteq> example_fallback_raw"
  "example_fallback_raw \<noteq> []"
  by (simp_all add: example_resolveUrl_def example_fallback_def example_fallback_raw_def
      example_primary_def)

lemma example_preload_pending:
  "promiseState (preload_at example_resolveUrl example_primary example_fallback 1000
      [(300, Error), (5000, Load)] 999) = Pending"
  by (simp add: preload_at_def events_until_def preloadImageWithFallback_def onerror_def
      example_resolveUrl_def example_primary_def example_fallback_def Let_def)

text \<open>
  C9. The promise of \<open>preloadImageWithFallback\<close> is never rejected, whatever the browser
  delivers and however it resolves URLs. From \<open>timeoutMs\<close> milliseconds after the call on
  it is fulfilled, whatever image events came before; it is fulfilled as soon as a
  \<open>load\<close> event or the timeout has been delivered. \<open>finish\<close> a second time changes
  nothing. When the fallback URL reads back from \<open>img.src\<close> as it was assigned, the promise
  is also fulfilled after two \<open>error\<close> events and \<open>img.src\<close> is assigned at most twice, so
  there is at most one switch to the fallback. When neither the primary nor the fallback
  URL reads back as the fallback string, \<open>error\<close> events alone leave the promise pending
  and each assigns \<open>img.src\<close> again; the timeout still fulfils it.
\<close>

theorem preload_settles:
  "promiseState (preload_at R p f tm es T) \<noteq> Rejected
   \<and> (max 0 tm \<le> T \<longrightarrow>
        settled (preload_at R p f tm es T) \<and> promiseState (preload_at R p f tm es T) = Fulfilled)
   \<and> promiseState (fold (deliver R) evs (preloadImageWithFallback p f tm)) \<noteq> Rejected
   \<and> (TimerFires \<in> set evs \<or> ImageEvent Load \<in> set evs \<longrightarrow>
        promiseState (fold (deliver R) evs (preloadImageWithFallback p f tm)) = Fulfilled)
   \<and> (R f = f \<longrightarrow>
        promiseState (fold (deliver R) (ImageEvent Error # ImageEvent Error # evs)
          (preloadImageWithFallback p f tm)) = Fulfilled
        \<and> assignments (fold (deliver R) evs (preloadImageWithFallback p f tm)) \<le> 2)
   \<and> (f \<noteq> [] \<and> R p \<noteq> f \<and> R f \<noteq> f \<and> set evs \<subseteq> {ImageEvent Error} \<longrightarrow>
        promiseState (fold (deliver R) evs (preloadImageWithFallback p f tm)) = Pending
        \<and> assignments (fold (deliver R) evs (preloadImageWithFallback p f tm)) = length evs + 1)
   \<and> finish (finish s) = finish s
   \<and> (settled s \<longrightarrow> finish s = s)"
proof -
  let ?s0 = "preloadImageWithFallback p f tm"
  have inv: "preload_inv (fold (deliver R) xs ?s0)" for xs
    by (rule preload_inv_fold) (rule preload_inv_start)
  have tm: "timeoutMs ?s0 = tm"
    by (simp add: preloadImageWithFallback_def)
  have at: "preload_inv (preload_at R p f tm es T)"
    unfolding preload_at_def Let_def by (rule inv)
  have fulfilled: "promiseState (fold (deliver R) xs ?s0) = Fulfilled"
    if "settled (fold (deliver R) xs ?s0)" for xs
    using inv [of xs] that by (simp add: preload_inv_def)
  have c1: "promiseState (preload_at R p f tm es T) \<noteq> Rejected"
    using at by (simp add: preload_inv_def)
  have c2: "max 0 tm \<le> T \<longrightarrow>
        settled (preload_at R p f tm es T) \<and> promiseState (preload_at R p f tm es T) = Fulfilled"
  proof
    assume "max 0 tm \<le> T"
    then have "settled (preload_at R p f tm es T)"
      unfolding preload_at_def Let_def tm
      by (intro settled_trace preload_inv_start disjI1 timer_in_events)
    then show "settled (preload_at R p f tm es T) \<and> promiseState (preload_at R p f tm es T) = Fulfilled"
      using at by (simp add: preload_inv_def)
  qed
  have c3: "promiseState (fold (deliver R) evs ?s0) \<noteq> Rejected"
    using inv [of evs] by (simp add: preload_inv_def)
  have c4: "TimerFires \<in> set evs \<or> ImageEvent Load \<in> set evs \<longrightarrow>
        promiseState (fold (deliver R) evs ?s0) = Fulfilled"
    using settled_trace [where s = ?s0 and evs = evs and R = R, OF preload_inv_start] fulfilled [of evs] by blast
  have c5: "R f = f \<longrightarrow>
        promiseState (fold (deliver R) (ImageEvent Error # ImageEvent Error # evs) ?s0) = Fulfilled
        \<and> assignments (fold (deliver R) evs ?s0) \<le> 2"
  proof
    assume same: "R f = f"
    have "settled (fold (deliver R) [ImageEvent Error, ImageEvent Error] ?s0)"
      using same by (rule two_errors_settle)
    then have "settled (fold (deliver R) (ImageEvent Error # ImageEvent Error # evs) ?s0)"
      using settled_fold [of "fold (deliver R) [ImageEvent Error, ImageEvent Error] ?s0" R evs]
      by simp
    then have a: "promiseState (fold (deliver R) (ImageEvent Error # ImageEvent Error # evs) ?s0) = Fulfilled"
      by (rule fulfilled)
    have "single_switch R (fold (deliver R) evs ?s0)"
      using same by (intro single_switch_fold single_switch_start)
    then have b: "assignments (fold (deliver R) evs ?s0) \<le> 2"
      by (auto simp: single_switch_def)
    from a b show "promiseState (fold (deliver R) (ImageEvent Error # ImageEvent Error # evs) ?s0) = Fulfilled
        \<and> assignments (fold (deliver R) evs ?s0) \<le> 2" by (rule conjI)
  qed
  have c6: "f \<noteq> [] \<and> R p \<noteq> f \<and> R f \<noteq> f \<and> set evs \<subseteq> {ImageEvent Error} \<longrightarrow>
        promiseState (fold (deliver R) evs ?s0) = Pending
        \<and> assignments (fold (deliver R) evs ?s0) = length evs + 1"
  proof
    assume h: "f \<noteq> [] \<and> R p \<noteq> f \<and> R f \<noteq> f \<and> set evs \<subseteq> {ImageEvent Error}"
    have "promiseState (fold (deliver R) evs ?s0) = promiseState ?s0
       \<and> assignments (fold (deliver R) evs ?s0) = assignments ?s0 + length evs"
      using h by (intro errors_reassign) (simp_all add: preloadImageWithFallback_def)
    then show "promiseState (fold (deliver R) evs ?s0) = Pending
        \<and> assignments (fold (deliver R) evs ?s0) = length evs + 1"
      by (simp add: preloadImageWithFallback_def)
  qed
  have c8: "settled s \<longrightarrow> finish s = s" by (simp add: finish_settled)
  from c1 c2 c3 c4 c5 c6 finish_twice [of s] c8 show ?thesis
    by (intro conjI)
qed

theorem preload_settles_witness:
  "promiseState (preload_at example_resolveUrl example_primary example_fallback 1000
      [(300, Error), (5000, Load)] 999) = Pending
   \<and> max 0 1000 \<le> (1000 :: int)
   \<and> promiseState (preload_at example_resolveUrl example_primary example_fallback 1000
      [(300, Error), (5000, Load)] 1000) = Fulfilled
   \<and> promiseState (fold (deliver example_resolveUrl) [ImageEvent Error, ImageEvent Load]
        (preloadImageWithFallback example_primary example_fallback 1000)) = Fulfilled
   \<and> example_resolveUrl example_fallback = example_fallback
   \<and> promiseState (fold (deliver example_resolveUrl) [ImageEvent Error, ImageEvent Error]
        (preloadImageWithFallback example_primary example_fallback 1000)) = Fulfilled
   \<and> assignments (fold (deliver example_resolveUrl) [ImageEvent Error, ImageEvent Error]
        (preloadImageWithFallback example_primary example_fallback 1000)) \<le> 2
   \<and> example_resolveUrl example_fallback_raw \<noteq> example_fallback_raw
   \<and> promiseState (fold (deliver example_resolveUrl) [ImageEvent Error, ImageEvent Error]
        (preloadImageWithFallback example_primary example_fallback_raw 1000)) = Pending
   \<and> assignments (fold (deliver example_resolveUrl) [ImageEvent Error, ImageEvent Error]
        (preloadImageWithFallback example_primary example_fallback_raw 1000)) = 3
   \<and> promiseState (preload_at example_resolveUrl example_primary example_fallback_raw 1000
      [(300, Error), (600, Error)] 1000) = Fulfilled
   \<and> settled (finish (preloadImageWithFallback example_primary example_fallback 1000))
   \<and> finish (finish (preloadImageWithFallback example_primary example_fallback 1000))
       = finish (preloadImageWithFallback example_primary example_fallback 1000)"
proof -
  have le: "max 0 1000 \<le> (1000 :: int)" by simp
  have mem: "TimerFires \<in> set [ImageEvent Error, ImageEvent Load]
      \<or> ImageEvent Load \<in> set [ImageEvent Error, ImageEvent Load]" by simp
  have st: "settled (finish (preloadImageWithFallback example_primary example_fallback 1000))"
    by (simp add: finish_def resolve_def preloadImageWithFallback_def)
  note good = preload_settles [where R = example_resolveUrl and p = example_primary
      and f = example_fallback and tm = 1000 and es = "[(300, Error), (5000, Load)]" and T = 1000
      and evs = "[ImageEvent Error, ImageEvent Load]"
      and s = "finish (preloadImageWithFallback example_primary example_fallback 1000)"]
  note errs = preload_settles [where R = example_resolveUrl and p = example_primary
      and f = example_fallback and tm = 1000 and es = "[(300, Error), (5000, Load)]" and T = 1000
      and evs = "[]"
      and s = "finish (preloadImageWithFallback example_primary example_fallback 1000)"]
  note twice = preload_settles [where R = example_resolveUrl and p = example_primary
      and f = example_fallback and tm = 1000 and es = "[(300, Error), (5000, Load)]" and T = 1000
      and evs = "[ImageEvent Error, ImageEvent Error]"
      and s = "finish (preloadImageWithFallback example_primary example_fallback 1000)"]
  note raw = preload_settles [where R = example_resolveUrl and p = example_primary
      and f = example_fallback_raw and tm = 1000 and es = "[(300, Error), (600, Error)]" and T = 1000
      and evs = "[ImageEvent Error, ImageEvent Error]"
      and s = "finish (preloadImageWithFallback example_primary example_fallback 1000)"]
  have a: "promiseState (preload_at example_resolveUrl example_primary example_fallback 1000
      [(300, Error), (5000, Load)] 1000) = Fulfilled"
    and b: "promiseState (fold (deliver example_resolveUrl) [ImageEvent Error, ImageEvent Load]
        (preloadImageWithFallback example_primary example_fallback 1000)) = Fulfilled"
    and c: "finish (finish (preloadImageWithFallback example_primary example_fallback 1000))
       = finish (preloadImageWithFallback example_primary example_fallback 1000)"
    using good le mem st by blast+
  have d: "promiseState (fold (deliver example_resolveUrl) [ImageEvent Error, ImageEvent Error]
        (preloadImageWithFallback example_primary example_fallback 1000)) = Fulfilled"
    using errs example_resolves(1) by blast
  have e: "assignments (fold (deliver example_resolveUrl) [ImageEvent Error, ImageEvent Error]
        (preloadImageWithFallback example_primary example_fallback 1000)) \<le> 2"
    using twice example_resolves(1) by blast
  have only: "set [ImageEvent Error, ImageEvent Error] \<subseteq> {ImageEvent Error}" by simp
  have f: "promiseState (fold (deliver example_resolveUrl) [ImageEvent Error, ImageEvent Error]
        (preloadImageWithFallback example_primary example_fallback_raw 1000)) = Pending
     \<and> assignments (fold (deliver example_resolveUrl) [ImageEvent Error, ImageEvent Error]
        (preloadImageWithFallback example_primary example_fallback_raw 1000))
       = length [ImageEvent Error, ImageEvent Error] + 1"
    using raw example_resolves(2,3,4) only by blast
  have g: "promiseState (preload_at example_resolveUrl example_primary example_fallback_raw 1000
      [(300, Error), (600, Error)] 1000) = Fulfilled"
    using raw le by blast
  from a b c d e f g le st example_resolves(1,3) example_preload_pending show ?thesis
    by simp
qed

end
